theory Spec2Isabelle
  imports Main "HOL-Library.Word"
begin

unbundle bit_operations_syntax

section \<open>Machine types, page macros and constants\<close>

text \<open>
  The guard-mode zone allocator of \<^verbatim>\<open>osfmk/kern/gzalloc.c\<close>, embedded for an LP64
  kernel: \<^verbatim>\<open>vm_offset_t\<close>, \<^verbatim>\<open>vm_size_t\<close> and pointers are 64-bit words whose arithmetic
  wraps, \<^verbatim>\<open>uint32_t\<close> is a 32-bit word. Memory is a map from addresses to bytes; the zone
  structures themselves are kept in a typed store indexed by the zone pointer. The zone
  lock is not modelled: every operation runs to completion on the state it is given.
\<close>

type_synonym vm_offset_t = "64 word"
type_synonym vm_size_t = "64 word"
type_synonym zone_t = "64 word"
type_synonym kern_return_t = "32 word"
type_synonym memory = "vm_offset_t \<Rightarrow> 8 word"

text \<open>
  Modelled from the spec: \<^verbatim>\<open>KERN_SUCCESS\<close> and \<^verbatim>\<open>ZONE_NULL\<close> come from headers that are not
  among the sources (\<^verbatim>\<open>mach/kern_return.h\<close>, \<^verbatim>\<open>kern/zalloc.h\<close>); the spec speaks of success
  or failure of the virtual-memory primitives and of a size class that is not yet
  initialized. They are the zero return code and the null zone pointer.
\<close>

definition KERN_SUCCESS :: kern_return_t where
  "KERN_SUCCESS = 0"

definition ZONE_NULL :: zone_t where
  "ZONE_NULL = 0"

text \<open>
  Modelled from the spec: the page macros \<^verbatim>\<open>PAGE_SIZE\<close>, \<^verbatim>\<open>PAGE_MASK\<close> and \<^verbatim>\<open>round_page\<close>
  come from \<^verbatim>\<open>mach/vm_param.h\<close>, which is not among the sources. The spec only says
  \<^verbatim>\<open>pageRound\<close>; they are taken here as 4 KiB pages with the usual mask arithmetic
  \<^verbatim>\<open>(x + PAGE_MASK) & ~PAGE_MASK\<close>.
\<close>

definition PAGE_SIZE :: vm_offset_t where
  "PAGE_SIZE = 4096"

definition PAGE_MASK :: vm_offset_t where
  "PAGE_MASK = PAGE_SIZE - 1"

definition round_page :: "vm_offset_t \<Rightarrow> vm_offset_t" where
  "round_page x = (x + PAGE_MASK) AND NOT PAGE_MASK"

definition GZDEADZONE :: zone_t where
  "GZDEADZONE = 0xDEAD201E"

definition GZALLOC_SIGNATURE :: "32 word" where
  "GZALLOC_SIGNATURE = 0xABADCAFE"

definition GZALLOC_RESERVE_SIZE_DEFAULT :: vm_size_t where
  "GZALLOC_RESERVE_SIZE_DEFAULT = 2 * 1024 * 1024"

text \<open>\<^verbatim>\<open>sizeof(gzhdr_t)\<close>: an 8-byte zone pointer followed by two 32-bit fields.\<close>

definition GZHEADER_SIZE :: vm_offset_t where
  "GZHEADER_SIZE = 16"

text \<open>
  The cast \<^verbatim>\<open>(SInt32) x\<close> of a \<^verbatim>\<open>vm_offset_t\<close> handed to \<^verbatim>\<open>OSAddAtomic64\<close>: truncation to
  32 bits, then sign extension to the 64-bit amount. \<^verbatim>\<open>-((SInt32) x)\<close> negates in 32 bits
  before the extension.
\<close>

definition SInt32 :: "vm_offset_t \<Rightarrow> 64 word" where
  "SInt32 x = scast (ucast x :: 32 word)"

definition neg_SInt32 :: "vm_offset_t \<Rightarrow> 64 word" where
  "neg_SInt32 x = scast (- (ucast x :: 32 word))"

definition OSAddAtomic64 :: "64 word \<Rightarrow> 64 word \<Rightarrow> 64 word" where
  "OSAddAtomic64 amount counter = counter + amount"

section \<open>Byte-addressed memory\<close>

definition memset :: "memory \<Rightarrow> vm_offset_t \<Rightarrow> 8 word \<Rightarrow> vm_size_t \<Rightarrow> memory" where
  "memset m p c n = (\<lambda>a. if a - p < n then c else m a)"

definition bzero :: "memory \<Rightarrow> vm_offset_t \<Rightarrow> vm_size_t \<Rightarrow> memory" where
  "bzero m p n = memset m p 0 n"

text \<open>Little-endian loads and stores of 32-bit and 64-bit objects.\<close>

definition store32 :: "memory \<Rightarrow> vm_offset_t \<Rightarrow> 32 word \<Rightarrow> memory" where
  "store32 m p v = (\<lambda>a. if a - p < 4 then ucast (drop_bit (8 * unat (a - p)) v) else m a)"

definition store64 :: "memory \<Rightarrow> vm_offset_t \<Rightarrow> 64 word \<Rightarrow> memory" where
  "store64 m p v = (\<lambda>a. if a - p < 8 then ucast (drop_bit (8 * unat (a - p)) v) else m a)"

definition load32 :: "memory \<Rightarrow> vm_offset_t \<Rightarrow> 32 word" where
  "load32 m p =
     ucast (m p) OR push_bit 8 (ucast (m (p + 1))) OR push_bit 16 (ucast (m (p + 2))) OR
     push_bit 24 (ucast (m (p + 3)))"

definition load64 :: "memory \<Rightarrow> vm_offset_t \<Rightarrow> 64 word" where
  "load64 m p =
     ucast (m p) OR push_bit 8 (ucast (m (p + 1))) OR push_bit 16 (ucast (m (p + 2))) OR
     push_bit 24 (ucast (m (p + 3))) OR push_bit 32 (ucast (m (p + 4))) OR
     push_bit 40 (ucast (m (p + 5))) OR push_bit 48 (ucast (m (p + 6))) OR
     push_bit 56 (ucast (m (p + 7)))"

text \<open>
  The fields of \<^verbatim>\<open>struct gzalloc_header\<close> at a header pointer: \<^verbatim>\<open>gzone\<close> at offset 0,
  \<^verbatim>\<open>gzsize\<close> at offset 8 and \<^verbatim>\<open>gzsig\<close> at offset 12.
\<close>

definition gzh_gzone :: "memory \<Rightarrow> vm_offset_t \<Rightarrow> zone_t" where
  "gzh_gzone m gzh = load64 m gzh"

definition gzh_gzsize :: "memory \<Rightarrow> vm_offset_t \<Rightarrow> 32 word" where
  "gzh_gzsize m gzh = load32 m (gzh + 8)"

definition gzh_gzsig :: "memory \<Rightarrow> vm_offset_t \<Rightarrow> 32 word" where
  "gzh_gzsig m gzh = load32 m (gzh + 12)"

section \<open>Zones, allocator state and the environment\<close>

text \<open>
  Modelled from the spec: \<^verbatim>\<open>struct zone\<close> is declared in \<^verbatim>\<open>kern/zalloc.h\<close>, which is not
  among the sources. Only the fields this file touches are kept: the element size, the
  exemption flag, the element count and byte totals, and the guard state \<^verbatim>\<open>gz\<close> (cache
  array reference and cursor).
\<close>

record gzalloc_data =
  gzfc_index :: "32 word"
  gzfc :: vm_offset_t

record zone =
  elem_size :: vm_size_t
  gzalloc_exempt :: bool
  count :: "32 word"
  sum_count :: "64 word"
  cur_size :: vm_size_t
  gz :: gzalloc_data

datatype vm_prot_t = VM_PROT_NONE | VM_PROT_READ

datatype kma_guard = KMA_GUARD_FIRST | KMA_GUARD_LAST

text \<open>
  The calls into the virtual-memory subsystem are recorded in a log, newest last:
  \<^verbatim>\<open>kernel_memory_allocate\<close> on the guard map (size, guard placement) and on the kernel
  map (size), \<^verbatim>\<open>vm_map_protect\<close> (start, end, protection) and \<^verbatim>\<open>vm_map_remove\<close>
  (start, end) on the guard map.
\<close>

datatype vm_call =
    KMA_GZALLOC_MAP vm_size_t kma_guard
  | KMA_KERNEL_MAP vm_size_t
  | VM_MAP_PROTECT vm_offset_t vm_offset_t vm_prot_t
  | VM_MAP_REMOVE vm_offset_t vm_offset_t

text \<open>
  The globals of the file, the two external readiness flags, the zone store, memory and
  the log. \<^verbatim>\<open>MACH_ASSERT\<close> is the build option that decides whether \<^verbatim>\<open>assert\<close> is compiled
  in.
\<close>

record gz_state =
  gzalloc_mode :: bool
  gzalloc_min :: "32 word"
  gzalloc_max :: "32 word"
  gzfc_size :: "32 word"
  gzalloc_uf_mode :: bool
  gzalloc_consistency_checks :: bool
  gzalloc_prot :: vm_prot_t
  gzalloc_guard :: kma_guard
  gzalloc_fill_pattern :: "8 word"
  gzalloc_reserve :: vm_offset_t
  gzalloc_reserve_size :: vm_size_t
  gzalloc_allocated :: "64 word"
  gzalloc_freed :: "64 word"
  gzalloc_early_alloc :: "64 word"
  gzalloc_early_free :: "64 word"
  gzalloc_wasted :: "64 word"
  pdzalloc_count :: "32 word"
  pdzfree_count :: "32 word"
  kmem_ready :: bool
  vm_page_zone :: zone_t
  MACH_ASSERT :: bool
  zones :: "zone_t \<Rightarrow> zone"
  mem :: memory
  vm_log :: "vm_call list"

text \<open>
  What the collaborators answer during one call: the preemption level, the result of
  \<^verbatim>\<open>kernel_memory_allocate\<close> (return code and the address it stores), and the return
  codes of \<^verbatim>\<open>vm_map_protect\<close> and \<^verbatim>\<open>vm_map_remove\<close>.
\<close>

record gz_env =
  preemption_level :: "32 word"
  kma_result :: "kern_return_t \<times> vm_offset_t"
  protect_result :: kern_return_t
  remove_result :: kern_return_t

datatype panic =
    Reserve_Exhausted
  | Zinit_KMA_Failed kern_return_t
  | KMA_Failed kern_return_t
  | Assert_Failed
  | Signature_Mismatch
  | Mismatched_Zone
  | Mismatched_Size
  | VM_Protect_Failed kern_return_t
  | VM_Remove_Failed kern_return_t

definition zone_update :: "zone_t \<Rightarrow> (zone \<Rightarrow> zone) \<Rightarrow> gz_state \<Rightarrow> gz_state" where
  "zone_update z f s = s\<lparr>zones := (zones s)(z := f (zones s z))\<rparr>"

definition log_call :: "vm_call \<Rightarrow> gz_state \<Rightarrow> gz_state" where
  "log_call c s = s\<lparr>vm_log := vm_log s @ [c]\<rparr>"

section \<open>The allocator\<close>

definition gzalloc_enabled :: "gz_state \<Rightarrow> bool" where
  "gzalloc_enabled s = gzalloc_mode s"

text \<open>The eligibility test shared by \<^verbatim>\<open>gzalloc_alloc\<close> and \<^verbatim>\<open>gzalloc_free\<close>.\<close>

definition gz_eligible :: "gz_state \<Rightarrow> zone_t \<Rightarrow> bool" where
  "gz_eligible s z \<longleftrightarrow>
     gzalloc_mode s \<and>
     ucast (gzalloc_min s) \<le> elem_size (zones s z) \<and>
     elem_size (zones s z) \<le> ucast (gzalloc_max s) \<and>
     \<not> gzalloc_exempt (zones s z)"

definition gz_rounded_size :: "gz_state \<Rightarrow> zone_t \<Rightarrow> vm_offset_t" where
  "gz_rounded_size s z = round_page (elem_size (zones s z) + GZHEADER_SIZE)"

definition gz_residue :: "gz_state \<Rightarrow> zone_t \<Rightarrow> vm_offset_t" where
  "gz_residue s z = gz_rounded_size s z - elem_size (zones s z)"

subsection \<open>\<^verbatim>\<open>gzalloc_zone_init\<close>\<close>

definition gzalloc_zone_init :: "gz_state \<Rightarrow> zone_t \<Rightarrow> gz_env \<Rightarrow> panic + gz_state" where
  "gzalloc_zone_init s z env =
     (if gzalloc_mode s then
        let s1 = zone_update z (\<lambda>zn. zn\<lparr>gz := \<lparr>gzfc_index = 0, gzfc = 0\<rparr>\<rparr>) s in
        if gzfc_size s1 \<noteq> 0 \<and> ucast (gzalloc_min s1) \<le> elem_size (zones s1 z) \<and>
           elem_size (zones s1 z) \<le> ucast (gzalloc_max s1) \<and> \<not> gzalloc_exempt (zones s1 z)
        then
          let gzfcsz = round_page (8 * ucast (gzfc_size s1)) in
          if \<not> kmem_ready s1 then
            if gzalloc_reserve_size s1 < gzfcsz then Inl Reserve_Exhausted
            else
              let p = gzalloc_reserve s1;
                  s2 = zone_update z (\<lambda>zn. zn\<lparr>gz := (gz zn)\<lparr>gzfc := p\<rparr>\<rparr>) s1;
                  s3 = s2\<lparr>gzalloc_reserve := gzalloc_reserve s2 + gzfcsz,
                          gzalloc_reserve_size := gzalloc_reserve_size s2 - gzfcsz\<rparr>
              in Inr (s3\<lparr>mem := bzero (mem s3) p gzfcsz\<rparr>)
          else
            let (kr, p) = kma_result env in
            if kr \<noteq> KERN_SUCCESS then Inl (Zinit_KMA_Failed kr)
            else
              let s2 = log_call (KMA_KERNEL_MAP gzfcsz) s1;
                  s3 = zone_update z (\<lambda>zn. zn\<lparr>gz := (gz zn)\<lparr>gzfc := p\<rparr>\<rparr>) s2
              in Inr (s3\<lparr>mem := bzero (mem s3) p gzfcsz\<rparr>)
        else Inr s1
      else Inr s)"

subsection \<open>\<^verbatim>\<open>gzalloc_alloc\<close>\<close>

text \<open>
  Backing memory for one allocation: from the reserve while the virtual-memory subsystem
  or \<^verbatim>\<open>vm_page_zone\<close> is not ready, from the guard map afterwards. Returns the state and
  \<^verbatim>\<open>gzaddr\<close>.
\<close>

definition gzalloc_backing ::
  "gz_state \<Rightarrow> vm_offset_t \<Rightarrow> gz_env \<Rightarrow> panic + (gz_state \<times> vm_offset_t)" where
  "gzalloc_backing s rounded_size env =
     (if \<not> kmem_ready s \<or> vm_page_zone s = ZONE_NULL then
        if gzalloc_reserve_size s < rounded_size then Inl Reserve_Exhausted
        else
          let gzaddr = gzalloc_reserve s in
          Inr (s\<lparr>gzalloc_reserve := gzalloc_reserve s + (rounded_size + PAGE_SIZE),
                 gzalloc_reserve_size := gzalloc_reserve_size s - (rounded_size + PAGE_SIZE),
                 gzalloc_early_alloc := OSAddAtomic64 (SInt32 rounded_size) (gzalloc_early_alloc s)\<rparr>,
               gzaddr)
      else
        let (kr, gzaddr) = kma_result env in
        if kr \<noteq> KERN_SUCCESS then Inl (KMA_Failed kr)
        else Inr (log_call (KMA_GZALLOC_MAP (rounded_size + 1 * PAGE_SIZE) (gzalloc_guard s)) s,
                  gzaddr))"

text \<open>
  The layout chosen for a backing region at \<^verbatim>\<open>gzaddr\<close>: the start of the filled data
  region, the header pointer \<^verbatim>\<open>gzh\<close> and the returned element address \<^verbatim>\<open>addr\<close>.
\<close>

definition gzalloc_layout ::
  "bool \<Rightarrow> vm_offset_t \<Rightarrow> vm_size_t \<Rightarrow> vm_offset_t \<Rightarrow> vm_offset_t \<times> vm_offset_t \<times> vm_offset_t" where
  "gzalloc_layout uf_mode gzaddr esize residue =
     (if uf_mode then
        let gzaddr' = gzaddr + PAGE_SIZE in (gzaddr', gzaddr' + esize, gzaddr')
      else (gzaddr, gzaddr + residue - GZHEADER_SIZE, gzaddr + residue))"

definition gzalloc_write_header ::
  "memory \<Rightarrow> vm_offset_t \<Rightarrow> zone_t \<Rightarrow> vm_size_t \<Rightarrow> memory" where
  "gzalloc_write_header m gzh zn esize =
     store32 (store32 (store64 m gzh zn) (gzh + 8) (ucast esize)) (gzh + 12) GZALLOC_SIGNATURE"

definition gzalloc_alloc ::
  "gz_state \<Rightarrow> zone_t \<Rightarrow> bool \<Rightarrow> gz_env \<Rightarrow> panic + (gz_state \<times> vm_offset_t)" where
  "gzalloc_alloc s zn canblock env =
     (if gz_eligible s zn then
        if preemption_level env \<noteq> 0 \<and> \<not> canblock then Inr (s, 0)
        else
          let s1 = (if preemption_level env \<noteq> 0
                    then s\<lparr>pdzalloc_count := pdzalloc_count s + 1\<rparr> else s);
              esize = elem_size (zones s1 zn);
              rounded_size = round_page (esize + GZHEADER_SIZE);
              residue = rounded_size - esize
          in case gzalloc_backing s1 rounded_size env of
               Inl p \<Rightarrow> Inl p
             | Inr (s2, gzaddr0) \<Rightarrow>
                 let (gzaddr, gzh, addr) = gzalloc_layout (gzalloc_uf_mode s2) gzaddr0 esize residue;
                     m1 = memset (mem s2) gzaddr (gzalloc_fill_pattern s2) rounded_size;
                     m2 = gzalloc_write_header m1 gzh
                            (if kmem_ready s2 \<and> vm_page_zone s2 \<noteq> ZONE_NULL then zn else GZDEADZONE)
                            esize;
                     s3 = s2\<lparr>mem := m2\<rparr>;
                     s4 = zone_update zn (\<lambda>z. z\<lparr>count := count z + 1,
                                                 sum_count := sum_count z + 1,
                                                 cur_size := cur_size z + rounded_size\<rparr>) s3;
                     s5 = s4\<lparr>gzalloc_allocated := OSAddAtomic64 (SInt32 rounded_size) (gzalloc_allocated s4)\<rparr>;
                     s6 = s5\<lparr>gzalloc_wasted :=
                               OSAddAtomic64 (SInt32 (rounded_size - elem_size (zones s5 zn))) (gzalloc_wasted s5)\<rparr>
                 in Inr (s6, addr)
      else Inr (s, 0))"

subsection \<open>\<^verbatim>\<open>gzalloc_free\<close>\<close>

text \<open>The header pointer and region start that a free derives from the element address.\<close>

definition gzfree_locate ::
  "bool \<Rightarrow> vm_offset_t \<Rightarrow> vm_size_t \<Rightarrow> vm_offset_t \<Rightarrow> vm_offset_t \<times> vm_offset_t" where
  "gzfree_locate uf_mode addr esize residue =
     (if uf_mode then (addr + esize, addr - PAGE_SIZE)
      else (addr - GZHEADER_SIZE, addr - residue))"

text \<open>The consistency checks, in the order of the source; \<open>None\<close> when none fires.\<close>

definition gzfree_consistency :: "gz_state \<Rightarrow> zone_t \<Rightarrow> vm_offset_t \<Rightarrow> panic option" where
  "gzfree_consistency s zn gzh =
     (if gzalloc_consistency_checks s then
        if gzh_gzsig (mem s) gzh \<noteq> GZALLOC_SIGNATURE then Some Signature_Mismatch
        else if gzh_gzone (mem s) gzh \<noteq> zn \<and> gzh_gzone (mem s) gzh \<noteq> GZDEADZONE
          then Some Mismatched_Zone
        else if ucast (gzh_gzsize (mem s) gzh) \<noteq> elem_size (zones s zn) then Some Mismatched_Size
        else None
      else None)"

text \<open>
  Insertion into the free element cache: reset the cursor when it has reached the
  capacity, read the slot under the cursor, overwrite it and advance the cursor. Returns
  the state and the previous content of the slot.
\<close>

definition gzfc_insert :: "gz_state \<Rightarrow> zone_t \<Rightarrow> vm_offset_t \<Rightarrow> gz_state \<times> vm_offset_t" where
  "gzfc_insert s zn saddr =
     (let s1 = (if gzfc_size s \<le> gzfc_index (gz (zones s zn))
                then zone_update zn (\<lambda>z. z\<lparr>gz := (gz z)\<lparr>gzfc_index := 0\<rparr>\<rparr>) s else s);
          slot = gzfc (gz (zones s1 zn)) + 8 * ucast (gzfc_index (gz (zones s1 zn)));
          free_addr = load64 (mem s1) slot;
          s2 = s1\<lparr>mem := store64 (mem s1) slot saddr\<rparr>;
          s3 = zone_update zn (\<lambda>z. z\<lparr>gz := (gz z)\<lparr>gzfc_index := gzfc_index (gz z) + 1\<rparr>\<rparr>) s2
      in (s3, free_addr))"

text \<open>
  The end of \<^verbatim>\<open>gzalloc_free\<close>: when there is an eviction candidate, the zone's count and
  byte total are decremented, the candidate's region is removed from the guard map and
  the freed and wasted counters are adjusted.
\<close>

definition gzfree_release ::
  "gz_state \<Rightarrow> zone_t \<Rightarrow> vm_offset_t \<Rightarrow> vm_offset_t \<Rightarrow> gz_env \<Rightarrow> panic + (gz_state \<times> bool)" where
  "gzfree_release s3 zn free_addr rounded_size env =
     (let s4 = (if free_addr \<noteq> 0
                then zone_update zn (\<lambda>z. z\<lparr>count := count z - 1,
                                            cur_size := cur_size z - rounded_size\<rparr>) s3
                else s3)
      in
      if free_addr \<noteq> 0 then
        if remove_result env \<noteq> KERN_SUCCESS
        then Inl (VM_Remove_Failed (remove_result env))
        else
          let s5 = log_call (VM_MAP_REMOVE free_addr (free_addr + rounded_size + 1 * PAGE_SIZE)) s4;
              s6 = s5\<lparr>gzalloc_freed := OSAddAtomic64 (SInt32 rounded_size) (gzalloc_freed s5)\<rparr>;
              s7 = s6\<lparr>gzalloc_wasted :=
                        OSAddAtomic64 (neg_SInt32 (rounded_size - elem_size (zones s6 zn)))
                          (gzalloc_wasted s6)\<rparr>
          in Inr (s7, True)
      else Inr (s4, True))"

text \<open>
  The part of \<^verbatim>\<open>gzalloc_free\<close> after the early-free return: the preemption count, the
  protection change (or, with no cache, the freed region itself as the candidate), the
  cache insertion under the zone lock, then the release of the candidate.
\<close>

definition gzfree_quarantine ::
  "gz_state \<Rightarrow> zone_t \<Rightarrow> vm_offset_t \<Rightarrow> vm_offset_t \<Rightarrow> gz_env \<Rightarrow> panic + (gz_state \<times> bool)" where
  "gzfree_quarantine s zn saddr rounded_size env =
     (let s1 = (if preemption_level env \<noteq> 0
                then s\<lparr>pdzfree_count := pdzfree_count s + 1\<rparr> else s)
      in
      if gzfc_size s1 \<noteq> 0 \<and> protect_result env \<noteq> KERN_SUCCESS
      then Inl (VM_Protect_Failed (protect_result env))
      else
        let (s2, free_addr0) =
              (if gzfc_size s1 \<noteq> 0
               then (log_call (VM_MAP_PROTECT saddr (saddr + rounded_size + 1 * PAGE_SIZE)
                                 (gzalloc_prot s1)) s1, 0)
               else (s1, saddr));
            (s3, free_addr) =
              (if gzfc_size s2 \<noteq> 0 then gzfc_insert s2 zn saddr else (s2, free_addr0))
        in gzfree_release s3 zn free_addr rounded_size env)"

definition gzalloc_free ::
  "gz_state \<Rightarrow> zone_t \<Rightarrow> vm_offset_t \<Rightarrow> gz_env \<Rightarrow> panic + (gz_state \<times> bool)" where
  "gzalloc_free s zn addr env =
     (if gz_eligible s zn then
        let rounded_size = round_page (elem_size (zones s zn) + GZHEADER_SIZE);
            residue = rounded_size - elem_size (zones s zn);
            (gzh, saddr) = gzfree_locate (gzalloc_uf_mode s) addr (elem_size (zones s zn)) residue
        in
        if MACH_ASSERT s \<and> saddr AND PAGE_MASK \<noteq> 0 then Inl Assert_Failed
        else case gzfree_consistency s zn gzh of
          Some p \<Rightarrow> Inl p
        | None \<Rightarrow>
            if \<not> kmem_ready s \<or> gzh_gzone (mem s) gzh = GZDEADZONE then
              Inr (s\<lparr>gzalloc_early_free := OSAddAtomic64 (SInt32 rounded_size) (gzalloc_early_free s)\<rparr>,
                   True)
            else gzfree_quarantine s zn saddr rounded_size env
      else Inr (s, False))"

section \<open>Runs of several calls and observations used in the statements\<close>

text \<open>Admitting a list of addresses to one zone's cache, collecting what each admission returns.\<close>

fun gzfc_insert_all :: "gz_state \<Rightarrow> zone_t \<Rightarrow> vm_offset_t list \<Rightarrow> gz_state \<times> vm_offset_t list" where
  "gzfc_insert_all s zn [] = (s, [])"
| "gzfc_insert_all s zn (a # as) =
     (let (s1, e) = gzfc_insert s zn a;
          (s2, es) = gzfc_insert_all s1 zn as
      in (s2, e # es))"

text \<open>A run of frees on one zone, each with its own environment; it stops at the first panic.\<close>

fun gzalloc_free_all :: "gz_state \<Rightarrow> zone_t \<Rightarrow> (vm_offset_t \<times> gz_env) list \<Rightarrow> panic + gz_state" where
  "gzalloc_free_all s zn [] = Inr s"
| "gzalloc_free_all s zn ((a, env) # rest) =
     (case gzalloc_free s zn a env of
        Inl p \<Rightarrow> Inl p
      | Inr (s', r) \<Rightarrow> gzalloc_free_all s' zn rest)"

text \<open>A run of \<open>n\<close> allocations from one zone; it stops at the first panic.\<close>

fun gzalloc_alloc_n :: "nat \<Rightarrow> gz_state \<Rightarrow> zone_t \<Rightarrow> bool \<Rightarrow> gz_env \<Rightarrow> panic + gz_state" where
  "gzalloc_alloc_n 0 s zn canblock env = Inr s"
| "gzalloc_alloc_n (Suc n) s zn canblock env =
     (case gzalloc_alloc s zn canblock env of
        Inl p \<Rightarrow> Inl p
      | Inr (s', a) \<Rightarrow> gzalloc_alloc_n n s' zn canblock env)"

text \<open>Zone initialization followed by a run of frees.\<close>

definition gzalloc_init_then_free ::
  "gz_state \<Rightarrow> zone_t \<Rightarrow> gz_env \<Rightarrow> (vm_offset_t \<times> gz_env) list \<Rightarrow> panic + (gz_state \<times> gz_state)" where
  "gzalloc_init_then_free s0 zn env0 frees =
     (case gzalloc_zone_init s0 zn env0 of
        Inl p \<Rightarrow> Inl p
      | Inr s \<Rightarrow> (case gzalloc_free_all s zn frees of Inl p \<Rightarrow> Inl p | Inr s' \<Rightarrow> Inr (s, s')))"

fun is_remove :: "vm_call \<Rightarrow> bool" where
  "is_remove (VM_MAP_REMOVE a b) = True"
| "is_remove c = False"

fun is_protect :: "vm_call \<Rightarrow> bool" where
  "is_protect (VM_MAP_PROTECT a b p) = True"
| "is_protect c = False"

text \<open>The calls logged between two states.\<close>

definition new_calls :: "gz_state \<Rightarrow> gz_state \<Rightarrow> vm_call list" where
  "new_calls s s' = drop (length (vm_log s)) (vm_log s')"

text \<open>A region was removed from the guard map between two states.\<close>

definition released :: "gz_state \<Rightarrow> gz_state \<Rightarrow> bool" where
  "released s s' = list_ex is_remove (new_calls s s')"

text \<open>
  Between two states the log has only grown, and only by protection changes: no region
  was allocated or removed.
\<close>

definition only_protects :: "gz_state \<Rightarrow> gz_state \<Rightarrow> bool" where
  "only_protects s s' \<longleftrightarrow>
     take (length (vm_log s)) (vm_log s') = vm_log s \<and> list_all is_protect (new_calls s s')"

text \<open>The content of slot \<open>i\<close> of a zone's free element cache.\<close>

definition gzfc_slot :: "gz_state \<Rightarrow> zone_t \<Rightarrow> 32 word \<Rightarrow> vm_offset_t" where
  "gzfc_slot s zn i = load64 (mem s) (gzfc (gz (zones s zn)) + 8 * ucast i)"

text \<open>The slot an admission uses: the cursor, reset to zero when it has reached the capacity.\<close>

definition gzfc_cursor :: "gz_state \<Rightarrow> zone_t \<Rightarrow> 32 word" where
  "gzfc_cursor s zn =
     (if gzfc_size s \<le> gzfc_index (gz (zones s zn)) then 0 else gzfc_index (gz (zones s zn)))"

text \<open>
  The cursor is at \<open>c\<close>, within the capacity, and no slot from \<open>c\<close> on has been written
  since the array was zeroed. A fresh cache is one with \<open>c = 0\<close>.
\<close>

definition gzfc_unused_from :: "gz_state \<Rightarrow> zone_t \<Rightarrow> 32 word \<Rightarrow> bool" where
  "gzfc_unused_from s zn c \<longleftrightarrow>
     gzfc_index (gz (zones s zn)) = c \<and> c \<le> gzfc_size s \<and>
     (\<forall>i. c \<le> i \<and> i < gzfc_size s \<longrightarrow> gzfc_slot s zn i = 0)"

definition gzfc_fresh :: "gz_state \<Rightarrow> zone_t \<Rightarrow> bool" where
  "gzfc_fresh s zn = gzfc_unused_from s zn 0"

text \<open>
  The base address of the backing region an allocation obtains: the reserve pointer on
  the early path, the address stored by \<^verbatim>\<open>kernel_memory_allocate\<close> otherwise.
\<close>

definition gzalloc_base :: "gz_state \<Rightarrow> gz_env \<Rightarrow> vm_offset_t" where
  "gzalloc_base s env =
     (if \<not> kmem_ready s \<or> vm_page_zone s = ZONE_NULL then gzalloc_reserve s
      else snd (kma_result env))"

text \<open>The header pointer and the region start that \<^verbatim>\<open>gzalloc_free\<close> derives for an address.\<close>

definition gzfree_gzh :: "gz_state \<Rightarrow> zone_t \<Rightarrow> vm_offset_t \<Rightarrow> vm_offset_t" where
  "gzfree_gzh s zn addr =
     fst (gzfree_locate (gzalloc_uf_mode s) addr (elem_size (zones s zn)) (gz_residue s zn))"

definition gzfree_saddr :: "gz_state \<Rightarrow> zone_t \<Rightarrow> vm_offset_t \<Rightarrow> vm_offset_t" where
  "gzfree_saddr s zn addr =
     snd (gzfree_locate (gzalloc_uf_mode s) addr (elem_size (zones s zn)) (gz_residue s zn))"

text \<open>The page-alignment assertion of \<^verbatim>\<open>gzalloc_free\<close> does not fire.\<close>

definition gzfree_assert_ok :: "gz_state \<Rightarrow> zone_t \<Rightarrow> vm_offset_t \<Rightarrow> bool" where
  "gzfree_assert_ok s zn addr \<longleftrightarrow> \<not> (MACH_ASSERT s \<and> gzfree_saddr s zn addr AND PAGE_MASK \<noteq> 0)"

subsection \<open>Concrete states\<close>

definition ex_zone :: zone where
  "ex_zone = \<lparr>elem_size = 1024, gzalloc_exempt = False, count = 0, sum_count = 0, cur_size = 0,
              gz = \<lparr>gzfc_index = 0, gzfc = 0x200000\<rparr>\<rparr>"

text \<open>
  Guard mode with the default window (1024 and up), a cache of two entries, overflow
  detection, consistency checks on, the virtual-memory subsystem ready, empty memory.
\<close>

definition ex_state :: gz_state where
  "ex_state =
     \<lparr>gzalloc_mode = True, gzalloc_min = 1024, gzalloc_max = 0xFFFFFFFF, gzfc_size = 2,
      gzalloc_uf_mode = False, gzalloc_consistency_checks = True, gzalloc_prot = VM_PROT_NONE,
      gzalloc_guard = KMA_GUARD_LAST, gzalloc_fill_pattern = 0x67,
      gzalloc_reserve = 0x100000, gzalloc_reserve_size = GZALLOC_RESERVE_SIZE_DEFAULT,
      gzalloc_allocated = 0, gzalloc_freed = 0, gzalloc_early_alloc = 0, gzalloc_early_free = 0,
      gzalloc_wasted = 0, pdzalloc_count = 0, pdzfree_count = 0,
      kmem_ready = True, vm_page_zone = 0x7000, MACH_ASSERT = True,
      zones = (\<lambda>z. ex_zone), mem = (\<lambda>a. 0), vm_log = []\<rparr>"

definition ex_env :: gz_env where
  "ex_env = \<lparr>preemption_level = 0, kma_result = (KERN_SUCCESS, 0x10000),
             protect_result = KERN_SUCCESS, remove_result = KERN_SUCCESS\<rparr>"

text \<open>
  Memory holding the header of one 1024-byte element at \<open>0x10C00\<close>, as an allocation in
  overflow-detection mode on the backing region at \<open>0x10000\<close> writes it, for a given
  recorded zone.
\<close>

definition ex_mem :: "zone_t \<Rightarrow> memory" where
  "ex_mem zn = gzalloc_write_header (\<lambda>a. 0) 0x10BF0 zn 1024"

text \<open>
  Memory holding the headers of three 1024-byte elements of zone \<open>0x4000\<close>, at \<open>0x10C00\<close>,
  \<open>0x20C00\<close> and \<open>0x30C00\<close>, and the state and environment in which that zone is then
  initialized, its cache array placed at \<open>0x200000\<close>.
\<close>

definition ex_mem3 :: memory where
  "ex_mem3 =
     gzalloc_write_header
       (gzalloc_write_header
          (gzalloc_write_header (\<lambda>a. 0) 0x10BF0 0x4000 1024)
          0x20BF0 0x4000 1024)
       0x30BF0 0x4000 1024"

definition ex_state3 :: gz_state where
  "ex_state3 = ex_state\<lparr>mem := ex_mem3\<rparr>"

definition ex_init_env :: gz_env where
  "ex_init_env = ex_env\<lparr>kma_result := (KERN_SUCCESS, 0x200000)\<rparr>"

text \<open>
  The states that run passes through: zone \<open>0x4000\<close> with its cache array at \<open>0x200000\<close>,
  given the cursor, memory, the log, the zone's count and byte total and the freed and
  wasted counters.
\<close>

definition ex_run_state ::
  "32 word \<Rightarrow> memory \<Rightarrow> vm_call list \<Rightarrow> 32 word \<Rightarrow> vm_size_t \<Rightarrow> 64 word \<Rightarrow> 64 word \<Rightarrow> gz_state" where
  "ex_run_state idx m lg cnt cs fr ws =
     ex_state\<lparr>zones := (\<lambda>z. ex_zone)
                  (0x4000 := ex_zone\<lparr>count := cnt, cur_size := cs,
                                      gz := \<lparr>gzfc_index = idx, gzfc = 0x200000\<rparr>\<rparr>),
               vm_log := lg, mem := m, gzalloc_freed := fr, gzalloc_wasted := ws\<rparr>"

section \<open>Memory: a load after a store\<close>

lemma GZALLOC_RESERVE_SIZE_DEFAULT_eq [simp]: "GZALLOC_RESERVE_SIZE_DEFAULT = 0x200000"
  by (simp add: GZALLOC_RESERVE_SIZE_DEFAULT_def)

lemma byte_of_word32:
  "push_bit k (ucast (ucast (drop_bit k v) :: 8 word) :: 32 word) = (v::32 word) AND push_bit k (mask 8)"
  by (rule bit_word_eqI) (auto simp add: bit_simps)

lemma byte_of_word64:
  "push_bit k (ucast (ucast (drop_bit k v) :: 8 word) :: 64 word) = (v::64 word) AND push_bit k (mask 8)"
  by (rule bit_word_eqI) (auto simp add: bit_simps)

lemma all_bytes32:
  "(mask 8 OR push_bit 8 (mask 8) OR push_bit 16 (mask 8) OR push_bit 24 (mask 8) :: 32 word) = - 1"
  by (simp add: mask_eq_exp_minus_1)

lemma all_bytes64:
  "(mask 8 OR push_bit 8 (mask 8) OR push_bit 16 (mask 8) OR push_bit 24 (mask 8) OR
    push_bit 32 (mask 8) OR push_bit 40 (mask 8) OR push_bit 48 (mask 8) OR
    push_bit 56 (mask 8) :: 64 word) = - 1"
  by (simp add: mask_eq_exp_minus_1)

lemma bytes_of_word32:
  "(ucast (ucast v :: 8 word) OR
     push_bit 8 (ucast (ucast (drop_bit 8 v) :: 8 word)) OR
     push_bit 16 (ucast (ucast (drop_bit 16 v) :: 8 word)) OR
     push_bit 24 (ucast (ucast (drop_bit 24 v) :: 8 word))) = (v::32 word)"
proof -
  have "ucast (ucast v :: 8 word) = v AND mask 8"
    using byte_of_word32 [of 0 v] by simp
  then show ?thesis
    apply (simp only: byte_of_word32)
    apply (simp only: flip: bit.conj_disj_distrib)
    apply (simp only: all_bytes32)
    apply simp
    done
qed

lemma bytes_of_word64:
  "(ucast (ucast v :: 8 word) OR
     push_bit 8 (ucast (ucast (drop_bit 8 v) :: 8 word)) OR
     push_bit 16 (ucast (ucast (drop_bit 16 v) :: 8 word)) OR
     push_bit 24 (ucast (ucast (drop_bit 24 v) :: 8 word)) OR
     push_bit 32 (ucast (ucast (drop_bit 32 v) :: 8 word)) OR
     push_bit 40 (ucast (ucast (drop_bit 40 v) :: 8 word)) OR
     push_bit 48 (ucast (ucast (drop_bit 48 v) :: 8 word)) OR
     push_bit 56 (ucast (ucast (drop_bit 56 v) :: 8 word))) = (v::64 word)"
proof -
  have "ucast (ucast v :: 8 word) = v AND mask 8"
    using byte_of_word64 [of 0 v] by simp
  then show ?thesis
    apply (simp only: byte_of_word64)
    apply (simp only: flip: bit.conj_disj_distrib)
    apply (simp only: all_bytes64)
    apply simp
    done
qed

lemma load32_store32_same: "load32 (store32 m p v) p = v"
  unfolding load32_def store32_def by (simp add: bytes_of_word32)

lemma load64_store64_same: "load64 (store64 m p v) p = v"
  unfolding load64_def store64_def by (simp add: bytes_of_word64)

text \<open>A store does not reach an 8-byte object that lies at least 8 bytes away on either side.\<close>

lemma store64_misses:
  fixes p q k :: "64 word"
  assumes "8 \<le> q - p" "q - p \<le> - 8" "k < 8"
  shows "\<not> (q + k - p < 8)"
proof -
  define d where "d = q - p"
  have e: "q + k - p = d + k" by (simp add: d_def)
  have d1: "8 \<le> unat d" using assms(1) by (simp add: d_def word_le_nat_alt)
  have d2: "unat d \<le> 2 ^ 64 - 8" using assms(2) by (simp add: d_def word_le_nat_alt)
  have k: "unat k < 8" using assms(3) by (simp add: word_less_nat_alt)
  have "unat d + unat k < 2 ^ LENGTH(64)" using d2 k by simp
  then have "unat (d + k) = unat d + unat k" by (simp only: unat_add_lem)
  then have "8 \<le> unat (d + k)" using d1 by simp
  then have "\<not> d + k < 8" by (simp add: word_less_nat_alt)
  then show ?thesis by (simp add: e)
qed

lemma load64_store64_other:
  assumes "8 \<le> q - p" "q - p \<le> - 8"
  shows "load64 (store64 m p v) q = load64 m q"
proof -
  have "\<not> (q + k - p < 8)" if "k < 8" for k
    using store64_misses [OF assms that] .
  from this [of 0] this [of 1] this [of 2] this [of 3] this [of 4] this [of 5] this [of 6] this [of 7]
  show ?thesis
    unfolding load64_def store64_def by simp
qed

lemma unat_ucast_32_64: "unat (ucast (i::32 word) :: 64 word) = unat i"
proof -
  have "unat i < 2 ^ 32" using unsigned_less [of i] by simp
  then have "unat i < 2 ^ 64" by simp
  then show ?thesis
    by (simp add: unsigned_ucast_eq take_bit_nat_eq_self)
qed

text \<open>Two different slots of a cache array are disjoint 8-byte objects.\<close>

lemma slot_gap:
  fixes i j :: "32 word"
  assumes "i \<noteq> j"
  shows "8 \<le> (b + 8 * ucast j) - (b + 8 * ucast i :: 64 word)"
    and "(b + 8 * ucast j) - (b + 8 * ucast i :: 64 word) \<le> - 8"
proof -
  have e: "(b + 8 * ucast j) - (b + 8 * ucast i :: 64 word) = 8 * ucast j - 8 * ucast i" by simp
  have bi: "unat i < 2 ^ 32" using unsigned_less [of i] by simp
  have bj: "unat j < 2 ^ 32" using unsigned_less [of j] by simp
  have ui: "unat (8 * ucast i :: 64 word) = 8 * unat i"
    using bi by (simp add: unat_word_ariths unat_ucast_32_64)
  have uj: "unat (8 * ucast j :: 64 word) = 8 * unat j"
    using bj by (simp add: unat_word_ariths unat_ucast_32_64)
  have ne: "unat i \<noteq> unat j" using assms by (simp add: word_unat_eq_iff)
  have m8: "unat (- 8 :: 64 word) = 2 ^ 64 - 8" by simp
  show "8 \<le> (b + 8 * ucast j) - (b + 8 * ucast i :: 64 word)"
    unfolding e
    apply (simp only: word_le_nat_alt unat_sub_if' ui uj)
    using bi bj ne apply auto
    done
  show "(b + 8 * ucast j) - (b + 8 * ucast i :: 64 word) \<le> - 8"
    unfolding e
    apply (simp only: word_le_nat_alt unat_sub_if' ui uj m8)
    using bi bj ne apply auto
    done
qed

lemma load64_store64_slot:
  fixes i j :: "32 word"
  assumes "i \<noteq> j"
  shows "load64 (store64 m (b + 8 * ucast i) v) (b + 8 * ucast j) = load64 m (b + 8 * ucast j)"
  by (rule load64_store64_other) (rule slot_gap [OF assms])+

section \<open>The header written by an allocation\<close>

lemma header_gzsig: "gzh_gzsig (gzalloc_write_header m gzh zn esize) gzh = GZALLOC_SIGNATURE"
  unfolding gzh_gzsig_def gzalloc_write_header_def
  by (simp add: load32_store32_same)

lemma header_gzsize: "gzh_gzsize (gzalloc_write_header m gzh zn esize) gzh = ucast esize"
  unfolding gzh_gzsize_def gzalloc_write_header_def
  by (simp add: load32_def store32_def store64_def bytes_of_word32)

lemma header_gzone: "gzh_gzone (gzalloc_write_header m gzh zn esize) gzh = zn"
  unfolding gzh_gzone_def gzalloc_write_header_def
  by (simp add: load64_def store32_def store64_def bytes_of_word64)

section \<open>Page rounding and the 32-bit casts\<close>

lemma and_not_eq_diff: "(x::64 word) AND NOT m = x - (x AND m)"
proof -
  have "x - (x AND m) = x AND NOT (x AND m)"
    by (rule disjunctive_diff_eq_and_not) (auto simp: bit_eq_iff bit_simps)
  also have "\<dots> = x AND NOT m"
    by (auto simp: bit_eq_iff bit_simps)
  finally show ?thesis by simp
qed

lemma PAGE_MASK_eq: "PAGE_MASK = mask 12"
  by (simp add: PAGE_MASK_def PAGE_SIZE_def mask_eq_exp_minus_1)

lemma and_PAGE_MASK_le: "(x AND PAGE_MASK) \<le> 4095"
  unfolding PAGE_MASK_def PAGE_SIZE_def
  using word_and_le1 [of x 4095] by simp

lemma round_page_aligned: "round_page x AND PAGE_MASK = 0"
  unfolding round_page_def PAGE_MASK_eq
  by (auto simp: bit_eq_iff bit_simps)

lemma round_page_residue:
  "round_page (S + GZHEADER_SIZE) - S = 4111 - ((S + 4111) AND PAGE_MASK)"
  unfolding round_page_def and_not_eq_diff GZHEADER_SIZE_def
  by (simp add: PAGE_MASK_def PAGE_SIZE_def add.commute)

lemma residue_bounds:
  "16 \<le> round_page (S + GZHEADER_SIZE) - S" "round_page (S + GZHEADER_SIZE) - S \<le> 4111"
proof -
  define r where "r = (S + 4111) AND PAGE_MASK"
  have r: "unat r \<le> 4095"
    using and_PAGE_MASK_le [of "S + 4111"] by (simp add: r_def word_le_nat_alt)
  have "r \<le> 4111" using r by (simp add: word_le_nat_alt)
  then have u: "unat (4111 - r) = 4111 - unat r" by (simp add: unat_sub)
  show "16 \<le> round_page (S + GZHEADER_SIZE) - S"
    unfolding round_page_residue r_def [symmetric] using r u by (simp add: word_le_nat_alt)
  show "round_page (S + GZHEADER_SIZE) - S \<le> 4111"
    unfolding round_page_residue r_def [symmetric] using r u by (simp add: word_le_nat_alt)
qed

lemma high_bits_clear: "x < 2 ^ 31 \<Longrightarrow> 31 \<le> n \<Longrightarrow> \<not> bit (x::64 word) n"
  by (metis bit_take_bit_iff less_mask_eq not_le take_bit_eq_mask)

lemma SInt32_small: "x < 2 ^ 31 \<Longrightarrow> SInt32 x = x"
  unfolding SInt32_def
  apply (rule bit_word_eqI)
  apply (simp add: bit_simps)
  apply (auto simp: min_def high_bits_clear)
  done

lemma neg_SInt32_small:
  assumes "x < 2 ^ 31"
  shows "neg_SInt32 x = - x"
proof -
  let ?y = "ucast x :: 32 word"
  have ux: "uint x < 2 ^ 31" using assms by (simp add: word_less_def)
  have lo: "- (2 ^ 31) \<le> uint x" by (rule order_trans [of _ 0]) simp_all
  have hi': "- uint x < 2 ^ 31" by (rule le_less_trans [of _ 0]) simp_all
  have lo': "- (2 ^ 31) \<le> - uint x" using ux by simp
  have uy: "uint ?y = uint x"
    using ux by (simp add: unsigned_ucast_eq take_bit_int_eq_self)
  have st: "signed_take_bit 31 (uint x) = uint x"
    using lo ux by (rule signed_take_bit_int_eq_self)
  have st': "signed_take_bit 31 (- uint x) = - uint x"
    using lo' hi' by (rule signed_take_bit_int_eq_self)
  have sy: "sint ?y = uint x"
    by (simp add: sint_uint uy st)
  have "sint (- ?y) = signed_take_bit 31 (- sint ?y)"
    by (simp add: sint_word_ariths)
  also have "\<dots> = - uint x"
    by (simp only: sy st')
  finally have "sint (- ?y) = - uint x" .
  then show ?thesis
    by (simp add: neg_SInt32_def scast_eq)
qed

lemma residue_lt: "round_page (S + GZHEADER_SIZE) - S < 2 ^ 31"
proof -
  have "round_page (S + GZHEADER_SIZE) - S \<le> 4111" by (rule residue_bounds)
  also have "(4111 :: 64 word) < 2 ^ 31" by simp
  finally show ?thesis .
qed

lemma SInt32_residue:
  "SInt32 (round_page (S + GZHEADER_SIZE) - S) = round_page (S + GZHEADER_SIZE) - S"
  by (rule SInt32_small) (rule residue_lt)

lemma neg_SInt32_residue:
  "neg_SInt32 (round_page (S + GZHEADER_SIZE) - S) = - (round_page (S + GZHEADER_SIZE) - S)"
  by (rule neg_SInt32_small) (rule residue_lt)

section \<open>What an allocation leaves behind\<close>

lemma backing_Inr:
  assumes "gzalloc_backing s r env = Inr (s2, g)"
  shows "g = gzalloc_base s env" "zones s2 = zones s" "mem s2 = mem s"
    "gzalloc_uf_mode s2 = gzalloc_uf_mode s" "kmem_ready s2 = kmem_ready s"
    "vm_page_zone s2 = vm_page_zone s" "gzalloc_wasted s2 = gzalloc_wasted s"
    "gzalloc_fill_pattern s2 = gzalloc_fill_pattern s" "pdzalloc_count s2 = pdzalloc_count s"
  using assms
  by (auto simp: gzalloc_backing_def gzalloc_base_def log_call_def Let_def split: if_splits prod.splits)

text \<open>The state an allocation that got its backing memory ends in.\<close>

lemma gzalloc_alloc_Inr:
  assumes el: "gz_eligible s zn"
    and nf: "\<not> (preemption_level env \<noteq> 0 \<and> \<not> canblock)"
    and np: "\<not> isl (gzalloc_alloc s zn canblock env)"
  obtains s2 where
    "gzalloc_backing (if preemption_level env \<noteq> 0 then s\<lparr>pdzalloc_count := pdzalloc_count s + 1\<rparr> else s)
       (gz_rounded_size s zn) env = Inr (s2, gzalloc_base s env)"
    "zones s2 = zones s" "mem s2 = mem s"
    "gzalloc_uf_mode s2 = gzalloc_uf_mode s" "kmem_ready s2 = kmem_ready s"
    "vm_page_zone s2 = vm_page_zone s" "gzalloc_wasted s2 = gzalloc_wasted s"
    "gzalloc_fill_pattern s2 = gzalloc_fill_pattern s"
    "pdzalloc_count s2 = (if preemption_level env \<noteq> 0 then pdzalloc_count s + 1 else pdzalloc_count s)"
proof -
  let ?s1 = "if preemption_level env \<noteq> 0 then s\<lparr>pdzalloc_count := pdzalloc_count s + 1\<rparr> else s"
  have z1: "zones ?s1 = zones s" by simp
  show thesis
  proof (cases "gzalloc_backing ?s1 (gz_rounded_size s zn) env")
    case (Inl p)
    then have "gzalloc_alloc s zn canblock env = Inl p"
      using el nf by (simp add: gzalloc_alloc_def gz_rounded_size_def Let_def z1 del: if_split cong: if_cong)
    with np show thesis by simp
  next
    case (Inr r)
    obtain s2 g where r: "r = (s2, g)" by (cases r)
    note b = backing_Inr [OF Inr [unfolded r]]
    have "gzalloc_base ?s1 env = gzalloc_base s env" by (auto simp add: gzalloc_base_def)
    then have g: "g = gzalloc_base s env" using b(1) by simp
    have f: "kmem_ready ?s1 = kmem_ready s" "vm_page_zone ?s1 = vm_page_zone s"
      "gzalloc_uf_mode ?s1 = gzalloc_uf_mode s" "mem ?s1 = mem s" "gzalloc_wasted ?s1 = gzalloc_wasted s"
      "gzalloc_fill_pattern ?s1 = gzalloc_fill_pattern s"
      "pdzalloc_count ?s1 = (if preemption_level env \<noteq> 0 then pdzalloc_count s + 1 else pdzalloc_count s)"
      by simp_all
    show thesis
      apply (rule that [of s2])
      using Inr r g apply simp
      using b z1 f apply simp_all
      done
  qed
qed

lemma gzalloc_alloc_result:
  assumes el: "gz_eligible s zn"
    and nf: "\<not> (preemption_level env \<noteq> 0 \<and> \<not> canblock)"
    and np: "\<not> isl (gzalloc_alloc s zn canblock env)"
  defines "L \<equiv> gzalloc_layout (gzalloc_uf_mode s) (gzalloc_base s env) (elem_size (zones s zn)) (gz_residue s zn)"
  shows "\<exists>s'. gzalloc_alloc s zn canblock env = Inr (s', snd (snd L)) \<and>
           mem s' = gzalloc_write_header
                      (memset (mem s) (fst L) (gzalloc_fill_pattern s) (gz_rounded_size s zn))
                      (fst (snd L))
                      (if kmem_ready s \<and> vm_page_zone s \<noteq> ZONE_NULL then zn else GZDEADZONE)
                      (elem_size (zones s zn)) \<and>
           zones s' = (zones s)(zn := (zones s zn)\<lparr>count := count (zones s zn) + 1,
                                                    sum_count := sum_count (zones s zn) + 1,
                                                    cur_size := cur_size (zones s zn) + gz_rounded_size s zn\<rparr>) \<and>
           gzalloc_wasted s' = gzalloc_wasted s + SInt32 (gz_residue s zn) \<and>
           gzalloc_uf_mode s' = gzalloc_uf_mode s \<and>
           kmem_ready s' = kmem_ready s \<and> vm_page_zone s' = vm_page_zone s \<and>
           pdzalloc_count s' =
             (if preemption_level env \<noteq> 0 then pdzalloc_count s + 1 else pdzalloc_count s)"
proof -
  define s1 where "s1 = (if preemption_level env \<noteq> 0 then s\<lparr>pdzalloc_count := pdzalloc_count s + 1\<rparr> else s)"
  from el nf np obtain s2 where
    b: "gzalloc_backing s1 (gz_rounded_size s zn) env = Inr (s2, gzalloc_base s env)"
    and f: "zones s2 = zones s" "mem s2 = mem s"
    "gzalloc_uf_mode s2 = gzalloc_uf_mode s" "kmem_ready s2 = kmem_ready s"
    "vm_page_zone s2 = vm_page_zone s" "gzalloc_wasted s2 = gzalloc_wasted s"
    "gzalloc_fill_pattern s2 = gzalloc_fill_pattern s"
    "pdzalloc_count s2 = (if preemption_level env \<noteq> 0 then pdzalloc_count s + 1 else pdzalloc_count s)"
    unfolding s1_def by (rule gzalloc_alloc_Inr)
  have z1: "zones s1 = zones s" by (simp add: s1_def)
  obtain g h a where L: "gzalloc_layout (gzalloc_uf_mode s) (gzalloc_base s env) (elem_size (zones s zn))
       (round_page (elem_size (zones s zn) + GZHEADER_SIZE) - elem_size (zones s zn)) = (g, h, a)"
    using prod_cases3 by blast
  have "gzalloc_alloc s zn canblock env =
          (let esize = elem_size (zones s1 zn);
               rounded_size = round_page (esize + GZHEADER_SIZE);
               residue = rounded_size - esize
           in case gzalloc_backing s1 rounded_size env of
               Inl p \<Rightarrow> Inl p
             | Inr (s2, gzaddr0) \<Rightarrow>
                 let (gzaddr, gzh, addr) = gzalloc_layout (gzalloc_uf_mode s2) gzaddr0 esize residue;
                     m1 = memset (mem s2) gzaddr (gzalloc_fill_pattern s2) rounded_size;
                     m2 = gzalloc_write_header m1 gzh
                            (if kmem_ready s2 \<and> vm_page_zone s2 \<noteq> ZONE_NULL then zn else GZDEADZONE)
                            esize;
                     s3 = s2\<lparr>mem := m2\<rparr>;
                     s4 = zone_update zn (\<lambda>z. z\<lparr>count := count z + 1,
                                                 sum_count := sum_count z + 1,
                                                 cur_size := cur_size z + rounded_size\<rparr>) s3;
                     s5 = s4\<lparr>gzalloc_allocated := OSAddAtomic64 (SInt32 rounded_size) (gzalloc_allocated s4)\<rparr>;
                     s6 = s5\<lparr>gzalloc_wasted :=
                               OSAddAtomic64 (SInt32 (rounded_size - elem_size (zones s5 zn))) (gzalloc_wasted s5)\<rparr>
                 in Inr (s6, addr))"
    using el nf unfolding gzalloc_alloc_def s1_def by (simp only: if_True if_False Let_def)
  then show ?thesis
    using b f L
    by (simp add: Let_def z1 L_def gz_rounded_size_def gz_residue_def zone_update_def OSAddAtomic64_def)
qed

lemma locate_layout:
  "gzfree_locate uf (snd (snd (gzalloc_layout uf base esize residue))) esize residue =
     (fst (snd (gzalloc_layout uf base esize residue)), base)"
  by (simp add: gzfree_locate_def gzalloc_layout_def Let_def)

section \<open>The shape of a free\<close>

lemma gzalloc_free_eligible:
  assumes "gz_eligible s zn"
  shows "gzalloc_free s zn addr env =
     (if \<not> gzfree_assert_ok s zn addr then Inl Assert_Failed
      else case gzfree_consistency s zn (gzfree_gzh s zn addr) of
        Some p \<Rightarrow> Inl p
      | None \<Rightarrow>
          if \<not> kmem_ready s \<or> gzh_gzone (mem s) (gzfree_gzh s zn addr) = GZDEADZONE
          then Inr (s\<lparr>gzalloc_early_free := gzalloc_early_free s + SInt32 (gz_rounded_size s zn)\<rparr>, True)
          else gzfree_quarantine s zn (gzfree_saddr s zn addr) (gz_rounded_size s zn) env)"
  using assms
  unfolding gzalloc_free_def gzfree_assert_ok_def gzfree_gzh_def gzfree_saddr_def
      gz_rounded_size_def gz_residue_def Let_def OSAddAtomic64_def case_prod_beta
  by (simp split: option.splits)

lemma pdzfree_if:
  "(if b then s\<lparr>pdzfree_count := x\<rparr> else s) = s\<lparr>pdzfree_count := (if b then x else pdzfree_count s)\<rparr>"
  by simp

lemma gzfree_release_panic:
  assumes "gzfree_release s zn fa r env = Inl p"
  shows "p = VM_Remove_Failed (remove_result env)"
  using assms
  by (simp add: gzfree_release_def Let_def split: if_splits)

text \<open>The two shapes of the quarantine step: with a cache and without one.\<close>

lemma gzfree_quarantine_cache:
  assumes "gzfc_size s \<noteq> 0"
  shows "gzfree_quarantine s zn saddr r env =
     (if protect_result env \<noteq> KERN_SUCCESS then Inl (VM_Protect_Failed (protect_result env))
      else
        let s2 = log_call (VM_MAP_PROTECT saddr (saddr + r + PAGE_SIZE) (gzalloc_prot s))
                   (s\<lparr>pdzfree_count := (if preemption_level env \<noteq> 0 then pdzfree_count s + 1
                                           else pdzfree_count s)\<rparr>)
        in gzfree_release (fst (gzfc_insert s2 zn saddr)) zn (snd (gzfc_insert s2 zn saddr)) r env)"
  using assms
  unfolding gzfree_quarantine_def Let_def case_prod_beta pdzfree_if
  by (simp add: log_call_def)

lemma gzfree_quarantine_nocache:
  assumes "gzfc_size s = 0"
  shows "gzfree_quarantine s zn saddr r env =
     gzfree_release (s\<lparr>pdzfree_count := (if preemption_level env \<noteq> 0 then pdzfree_count s + 1
                                           else pdzfree_count s)\<rparr>) zn saddr r env"
  using assms
  unfolding gzfree_quarantine_def Let_def case_prod_beta pdzfree_if
  by simp

lemma gzfree_quarantine_panic:
  assumes "gzfree_quarantine s zn saddr r env = Inl p"
  shows "p = VM_Protect_Failed (protect_result env) \<or> p = VM_Remove_Failed (remove_result env)"
proof (cases "gzfc_size s = 0")
  case True
  with assms show ?thesis
    by (simp add: gzfree_quarantine_nocache gzfree_release_panic)
next
  case False
  with assms show ?thesis
    by (auto simp add: gzfree_quarantine_cache Let_def gzfree_release_panic split: if_splits)
qed

lemma gzfree_consistency_cases:
  "gzfree_consistency s zn gzh = Some Signature_Mismatch \<longleftrightarrow>
     gzalloc_consistency_checks s \<and> gzh_gzsig (mem s) gzh \<noteq> GZALLOC_SIGNATURE"
  "gzfree_consistency s zn gzh = Some Mismatched_Zone \<longleftrightarrow>
     gzalloc_consistency_checks s \<and> gzh_gzsig (mem s) gzh = GZALLOC_SIGNATURE \<and>
     gzh_gzone (mem s) gzh \<noteq> zn \<and> gzh_gzone (mem s) gzh \<noteq> GZDEADZONE"
  "gzfree_consistency s zn gzh = Some Mismatched_Size \<longleftrightarrow>
     gzalloc_consistency_checks s \<and> gzh_gzsig (mem s) gzh = GZALLOC_SIGNATURE \<and>
     \<not> (gzh_gzone (mem s) gzh \<noteq> zn \<and> gzh_gzone (mem s) gzh \<noteq> GZDEADZONE) \<and>
     ucast (gzh_gzsize (mem s) gzh) \<noteq> elem_size (zones s zn)"
  unfolding gzfree_consistency_def
  by (cases "gzalloc_consistency_checks s"; cases "gzh_gzsig (mem s) gzh = GZALLOC_SIGNATURE";
      cases "gzh_gzone (mem s) gzh \<noteq> zn \<and> gzh_gzone (mem s) gzh \<noteq> GZDEADZONE";
      cases "ucast (gzh_gzsize (mem s) gzh) \<noteq> elem_size (zones s zn)"; simp only: if_True if_False panic.simps option.simps simp_thms)+

lemma ex_mem_header:
  "gzh_gzsig (ex_mem zn) 0x10BF0 = GZALLOC_SIGNATURE"
  "gzh_gzone (ex_mem zn) 0x10BF0 = zn"
  "gzh_gzsize (ex_mem zn) 0x10BF0 = 1024"
  by (simp_all add: ex_mem_def header_gzsig header_gzone header_gzsize)

lemma ex_geometry:
  assumes "zones s = (\<lambda>z. ex_zone)" and "\<not> gzalloc_uf_mode s"
  shows "gz_rounded_size s zn = 0x1000" "gz_residue s zn = 0xC00"
    "gzfree_gzh s zn 0x10C00 = 0x10BF0" "gzfree_saddr s zn 0x10C00 = 0x10000"
    "gzfree_assert_ok s zn 0x10C00"
proof -
  show r: "gz_rounded_size s zn = 0x1000"
    by (simp add: gz_rounded_size_def round_page_def PAGE_MASK_def PAGE_SIZE_def
        GZHEADER_SIZE_def assms ex_zone_def)
  show d: "gz_residue s zn = 0xC00"
    by (simp add: gz_residue_def r) (simp add: assms ex_zone_def)
  show "gzfree_gzh s zn 0x10C00 = 0x10BF0"
    by (simp add: gzfree_gzh_def gzfree_locate_def d assms GZHEADER_SIZE_def)
  show a: "gzfree_saddr s zn 0x10C00 = 0x10000"
    by (simp add: gzfree_saddr_def gzfree_locate_def d assms)
  show "gzfree_assert_ok s zn 0x10C00"
    by (simp add: gzfree_assert_ok_def a PAGE_MASK_def PAGE_SIZE_def)
qed

lemma ex_eligible:
  assumes "zones s = (\<lambda>z. ex_zone)" "gzalloc_mode s" "gzalloc_min s = 1024" "gzalloc_max s = 0xFFFFFFFF"
  shows "gz_eligible s zn"
  by (simp add: gz_eligible_def assms ex_zone_def)

lemma gzfree_release_none: "gzfree_release s zn 0 r env = Inr (s, True)"
  by (simp add: gzfree_release_def)

lemma gzfree_release_some:
  assumes "fa \<noteq> 0" and "remove_result env = KERN_SUCCESS"
  shows "gzfree_release s zn fa r env =
     Inr (s\<lparr>zones := (zones s)(zn := (zones s zn)\<lparr>count := count (zones s zn) - 1,
                                                    cur_size := cur_size (zones s zn) - r\<rparr>),
            vm_log := vm_log s @ [VM_MAP_REMOVE fa (fa + r + PAGE_SIZE)],
            gzalloc_freed := gzalloc_freed s + SInt32 r,
            gzalloc_wasted := gzalloc_wasted s + neg_SInt32 (r - elem_size (zones s zn))\<rparr>, True)"
  using assms
  by (simp add: gzfree_release_def Let_def zone_update_def log_call_def OSAddAtomic64_def)

lemma gzalloc_free_nocache_result:
  assumes "gz_eligible s zn" and "gzfree_assert_ok s zn addr"
    and "gzfree_consistency s zn (gzfree_gzh s zn addr) = None"
    and "kmem_ready s" and "gzh_gzone (mem s) (gzfree_gzh s zn addr) \<noteq> GZDEADZONE"
    and "gzfc_size s = 0"
    and "gzfree_saddr s zn addr \<noteq> 0"
    and "remove_result env = KERN_SUCCESS"
  shows "gzalloc_free s zn addr env =
     Inr (s\<lparr>pdzfree_count := (if preemption_level env \<noteq> 0 then pdzfree_count s + 1 else pdzfree_count s),
            zones := (zones s)(zn := (zones s zn)\<lparr>count := count (zones s zn) - 1,
                                                    cur_size := cur_size (zones s zn) - gz_rounded_size s zn\<rparr>),
            vm_log := vm_log s @ [VM_MAP_REMOVE (gzfree_saddr s zn addr)
                                    (gzfree_saddr s zn addr + gz_rounded_size s zn + PAGE_SIZE)],
            gzalloc_freed := gzalloc_freed s + SInt32 (gz_rounded_size s zn),
            gzalloc_wasted := gzalloc_wasted s - gz_residue s zn\<rparr>, True)"
proof -
  have w: "neg_SInt32 (gz_rounded_size s zn - elem_size (zones s zn)) = - gz_residue s zn"
    unfolding gz_residue_def gz_rounded_size_def by (rule neg_SInt32_residue)
  show ?thesis
    using assms(2-5)
    by (simp add: gzalloc_free_eligible [OF assms(1)] gzfree_quarantine_nocache [OF assms(6)]
        gzfree_release_some [OF assms(7,8)] w)
qed

lemma gzfc_insert_eq:
  "gzfc_insert s zn a =
     (s\<lparr>mem := store64 (mem s)
                 (gzfc (gz (zones s zn)) +
                    8 * ucast (if gzfc_size s \<le> gzfc_index (gz (zones s zn)) then 0
                               else gzfc_index (gz (zones s zn)))) a,
        zones := (zones s)(zn := (zones s zn)\<lparr>gz := (gz (zones s zn))
                    \<lparr>gzfc_index := (if gzfc_size s \<le> gzfc_index (gz (zones s zn)) then 0
                                     else gzfc_index (gz (zones s zn))) + 1\<rparr>\<rparr>)\<rparr>,
      load64 (mem s)
        (gzfc (gz (zones s zn)) +
           8 * ucast (if gzfc_size s \<le> gzfc_index (gz (zones s zn)) then 0
                      else gzfc_index (gz (zones s zn)))))"
  by (cases "gzfc_size s \<le> gzfc_index (gz (zones s zn))")
     (simp_all add: gzfc_insert_def Let_def zone_update_def)

text \<open>
  What a free that reaches the quarantine step and returns has done: either it removed
  one region, decremented the zone's count and byte total and adjusted the freed and
  wasted counters, or it removed nothing and left all of these alone.
\<close>

lemma gzfree_release_Inr:
  assumes "gzfree_release s zn fa r env = Inr (s', b)"
  shows "(fa \<noteq> 0 \<and> vm_log s' = vm_log s @ [VM_MAP_REMOVE fa (fa + r + PAGE_SIZE)] \<and>
          gzalloc_wasted s' = gzalloc_wasted s + neg_SInt32 (r - elem_size (zones s zn)) \<and>
          gzalloc_freed s' = gzalloc_freed s + SInt32 r \<and>
          count (zones s' zn) = count (zones s zn) - 1 \<and>
          cur_size (zones s' zn) = cur_size (zones s zn) - r) \<or>
         (fa = 0 \<and> s' = s)"
proof (cases "fa = 0")
  case True
  with assms show ?thesis by (simp add: gzfree_release_none)
next
  case False
  with assms have ok: "remove_result env = KERN_SUCCESS"
    by (simp add: gzfree_release_def Let_def split: if_splits)
  show ?thesis
    using assms False unfolding gzfree_release_some [OF False ok]
    by auto
qed

lemma gzfree_quarantine_Inr:
  assumes "gzfree_quarantine s zn saddr r env = Inr (s', b)"
  shows "(released s s' \<and>
          gzalloc_wasted s' = gzalloc_wasted s + neg_SInt32 (r - elem_size (zones s zn)) \<and>
          gzalloc_freed s' = gzalloc_freed s + SInt32 r \<and>
          count (zones s' zn) = count (zones s zn) - 1 \<and>
          cur_size (zones s' zn) = cur_size (zones s zn) - r) \<or>
         (\<not> released s s' \<and>
          gzalloc_wasted s' = gzalloc_wasted s \<and> gzalloc_freed s' = gzalloc_freed s \<and>
          count (zones s' zn) = count (zones s zn) \<and>
          cur_size (zones s' zn) = cur_size (zones s zn))"
proof (cases "gzfc_size s = 0")
  case True
  let ?s1 = "s\<lparr>pdzfree_count := (if preemption_level env \<noteq> 0 then pdzfree_count s + 1
                                           else pdzfree_count s)\<rparr>"
  from assms have "gzfree_release ?s1 zn saddr r env = Inr (s', b)"
    by (simp add: gzfree_quarantine_nocache [OF True])
  from gzfree_release_Inr [OF this] show ?thesis
    by (auto simp: released_def new_calls_def)
next
  case False
  define s2 where "s2 = log_call (VM_MAP_PROTECT saddr (saddr + r + PAGE_SIZE) (gzalloc_prot s))
                   (s\<lparr>pdzfree_count := (if preemption_level env \<noteq> 0 then pdzfree_count s + 1
                                           else pdzfree_count s)\<rparr>)"
  define s3 where "s3 = fst (gzfc_insert s2 zn saddr)"
  define fa where "fa = snd (gzfc_insert s2 zn saddr)"
  from assms have rel: "gzfree_release s3 zn fa r env = Inr (s', b)"
    unfolding s3_def fa_def s2_def
    by (simp add: gzfree_quarantine_cache [OF False] Let_def split: if_splits)
  have f: "vm_log s3 = vm_log s @ [VM_MAP_PROTECT saddr (saddr + r + PAGE_SIZE) (gzalloc_prot s)]"
    "gzalloc_wasted s3 = gzalloc_wasted s" "gzalloc_freed s3 = gzalloc_freed s"
    "count (zones s3 zn) = count (zones s zn)" "cur_size (zones s3 zn) = cur_size (zones s zn)"
    "elem_size (zones s3 zn) = elem_size (zones s zn)"
    unfolding s3_def s2_def by (simp_all add: gzfc_insert_eq log_call_def)
  from gzfree_release_Inr [OF rel] show ?thesis
  proof (elim disjE conjE)
    assume a: "vm_log s' = vm_log s3 @ [VM_MAP_REMOVE fa (fa + r + PAGE_SIZE)]"
      "gzalloc_wasted s' = gzalloc_wasted s3 + neg_SInt32 (r - elem_size (zones s3 zn))"
      "gzalloc_freed s' = gzalloc_freed s3 + SInt32 r"
      "count (zones s' zn) = count (zones s3 zn) - 1"
      "cur_size (zones s' zn) = cur_size (zones s3 zn) - r"
    have "released s s'"
      unfolding released_def new_calls_def a(1) f(1) by simp
    with a show ?thesis unfolding f by simp
  next
    assume a: "s' = s3"
    have "\<not> released s s'"
      unfolding released_def new_calls_def a f(1) by simp
    then show ?thesis unfolding a using f by simp
  qed
qed

lemma gzalloc_free_Inr_wasted:
  assumes el: "gz_eligible s zn"
    and r: "gzalloc_free s zn addr env = Inr (s', b)"
    and rel: "released s s'"
  shows "gzalloc_wasted s' = gzalloc_wasted s - gz_residue s zn"
proof -
  have w: "neg_SInt32 (gz_rounded_size s zn - elem_size (zones s zn)) = - gz_residue s zn"
    unfolding gz_residue_def gz_rounded_size_def by (rule neg_SInt32_residue)
  show ?thesis
  proof (cases "\<not> kmem_ready s \<or> gzh_gzone (mem s) (gzfree_gzh s zn addr) = GZDEADZONE")
    case True
    with r have "s' = s\<lparr>gzalloc_early_free := gzalloc_early_free s + SInt32 (gz_rounded_size s zn)\<rparr>"
      by (auto simp add: gzalloc_free_eligible [OF el] split: if_splits option.splits)
    then have "\<not> released s s'" by (simp add: released_def new_calls_def)
    with rel show ?thesis by simp
  next
    case False
    with r have "gzfree_quarantine s zn (gzfree_saddr s zn addr) (gz_rounded_size s zn) env = Inr (s', b)"
      by (auto simp add: gzalloc_free_eligible [OF el] split: if_splits option.splits)
    from gzfree_quarantine_Inr [OF this] rel show ?thesis
      by (auto simp: w)
  qed
qed

lemma aligned_add_page:
  assumes "x AND PAGE_MASK = 0"
  shows "(x + PAGE_SIZE) AND PAGE_MASK = 0"
proof -
  have "(x + PAGE_SIZE) AND mask 12 = (x AND mask 12) + PAGE_SIZE AND mask 12"
    by (simp only: mask_eqs)
  also have "\<dots> = 0"
    using assms by (simp add: PAGE_MASK_eq PAGE_SIZE_def mask_eq_exp_minus_1)
  finally show ?thesis by (simp add: PAGE_MASK_eq)
qed

section \<open>The free element cache\<close>

lemma gzfc_cursor_lt: "gzfc_size s \<noteq> 0 \<Longrightarrow> gzfc_cursor s zn < gzfc_size s"
  by (auto simp: gzfc_cursor_def word_neq_0_conv not_le)

lemma gzfc_insert_props:
  "snd (gzfc_insert s zn a) = gzfc_slot s zn (gzfc_cursor s zn)"
  "gzfc_index (gz (zones (fst (gzfc_insert s zn a)) zn)) = gzfc_cursor s zn + 1"
  "gzfc_slot (fst (gzfc_insert s zn a)) zn (gzfc_cursor s zn) = a"
  "i \<noteq> gzfc_cursor s zn \<Longrightarrow> gzfc_slot (fst (gzfc_insert s zn a)) zn i = gzfc_slot s zn i"
  "gzfc_size (fst (gzfc_insert s zn a)) = gzfc_size s"
  "gzfc (gz (zones (fst (gzfc_insert s zn a)) zn)) = gzfc (gz (zones s zn))"
  unfolding gzfc_insert_eq gzfc_slot_def gzfc_cursor_def [symmetric]
  by (simp_all add: load64_store64_same load64_store64_slot)

lemma word32_succ:
  fixes c n :: "32 word"
  assumes "c < n"
  shows "unat (c + 1) = unat c + 1" "c + 1 \<le> n"
proof -
  have "unat c < unat n" using assms by (simp add: word_less_nat_alt)
  moreover have "unat n < 2 ^ 32" using unsigned_less [of n] by simp
  ultimately have "unat c + unat (1::32 word) < 2 ^ LENGTH(32)" by simp
  then have "unat (c + 1) = unat c + unat (1::32 word)" by (simp only: unat_add_lem)
  then show u: "unat (c + 1) = unat c + 1" by simp
  show "c + 1 \<le> n" using \<open>unat c < unat n\<close> by (simp add: word_le_nat_alt u)
qed

lemma gzfc_unused_from_frame:
  assumes "zones s' = zones s" "mem s' = mem s" "gzfc_size s' = gzfc_size s"
  shows "gzfc_unused_from s' zn c = gzfc_unused_from s zn c"
  by (simp add: gzfc_unused_from_def gzfc_slot_def assms)

lemma gzfc_insert_unused:
  assumes u: "gzfc_unused_from s zn c" and lt: "c < gzfc_size s"
  shows "snd (gzfc_insert s zn a) = 0"
    and "gzfc_unused_from (fst (gzfc_insert s zn a)) zn (c + 1)"
    and "gzfc_slot (fst (gzfc_insert s zn a)) zn c = a"
    and "\<And>j. j < c \<Longrightarrow> gzfc_slot (fst (gzfc_insert s zn a)) zn j = gzfc_slot s zn j"
proof -
  from u have idx: "gzfc_index (gz (zones s zn)) = c"
    and z: "\<And>i. c \<le> i \<Longrightarrow> i < gzfc_size s \<Longrightarrow> gzfc_slot s zn i = 0"
    by (simp_all add: gzfc_unused_from_def)
  have "\<not> gzfc_size s \<le> c" using lt by simp
  then have cur: "gzfc_cursor s zn = c" using idx by (simp add: gzfc_cursor_def)
  note p = gzfc_insert_props [where s = s and zn = zn and a = a, unfolded cur]
  show "snd (gzfc_insert s zn a) = 0" using p(1) z [of c] lt by simp
  show "gzfc_slot (fst (gzfc_insert s zn a)) zn c = a" by (rule p(3))
  show "gzfc_slot (fst (gzfc_insert s zn a)) zn j = gzfc_slot s zn j" if "j < c" for j
    using that by (intro p(4)) auto
  show "gzfc_unused_from (fst (gzfc_insert s zn a)) zn (c + 1)"
    unfolding gzfc_unused_from_def
  proof (intro conjI allI impI)
    show "gzfc_index (gz (zones (fst (gzfc_insert s zn a)) zn)) = c + 1" by (rule p(2))
    show "c + 1 \<le> gzfc_size (fst (gzfc_insert s zn a))"
      unfolding p(5) by (rule word32_succ(2) [OF lt])
  next
    fix i assume i: "c + 1 \<le> i \<and> i < gzfc_size (fst (gzfc_insert s zn a))"
    then have "unat c + 1 \<le> unat i" using word32_succ(1) [OF lt] by (simp add: word_le_nat_alt)
    then have ci: "c < i" by (simp add: word_less_nat_alt)
    then have "i \<noteq> c" "c \<le> i" by auto
    with i show "gzfc_slot (fst (gzfc_insert s zn a)) zn i = 0"
      using p(4) [of i] z [of i] by (simp add: p(5))
  qed
qed

lemma gzfc_insert_all_size: "gzfc_size (fst (gzfc_insert_all s zn as)) = gzfc_size s"
  by (induction as arbitrary: s) (simp_all add: case_prod_beta Let_def gzfc_insert_props)

lemma gzfc_insert_all_append:
  "gzfc_insert_all s zn (xs @ ys) =
     (fst (gzfc_insert_all (fst (gzfc_insert_all s zn xs)) zn ys),
      snd (gzfc_insert_all s zn xs) @ snd (gzfc_insert_all (fst (gzfc_insert_all s zn xs)) zn ys))"
  by (induction xs arbitrary: s) (simp_all add: case_prod_beta Let_def)

lemma gzfc_insert_all_unused:
  assumes "gzfc_unused_from s zn c" and "unat c + length as \<le> unat (gzfc_size s)"
  shows "snd (gzfc_insert_all s zn as) = replicate (length as) 0 \<and>
         gzfc_unused_from (fst (gzfc_insert_all s zn as)) zn (c + of_nat (length as)) \<and>
         (\<forall>j. j < c \<longrightarrow> gzfc_slot (fst (gzfc_insert_all s zn as)) zn j = gzfc_slot s zn j)"
  using assms
proof (induction as arbitrary: s c)
  case Nil
  then show ?case by simp
next
  case (Cons a as)
  let ?s1 = "fst (gzfc_insert s zn a)"
  from Cons.prems(2) have lt: "c < gzfc_size s" by (simp add: word_less_nat_alt)
  note st = gzfc_insert_unused [OF Cons.prems(1) lt, where a = a]
  have sz: "gzfc_size ?s1 = gzfc_size s" by (rule gzfc_insert_props)
  have b: "unat (c + 1) + length as \<le> unat (gzfc_size ?s1)"
    using Cons.prems(2) word32_succ(1) [OF lt] by (simp add: sz)
  note IH = Cons.IH [OF st(2) b]
  have lt1: "j < c + 1" if "j < c" for j
    using that word32_succ(1) [OF lt] by (simp add: word_less_nat_alt)
  have e: "c + 1 + of_nat (length as) = c + of_nat (length (a # as))" by simp
  show ?case
  proof (intro conjI allI impI)
    show "snd (gzfc_insert_all s zn (a # as)) = replicate (length (a # as)) 0"
      using IH st(1) by (simp add: case_prod_beta Let_def)
    show "gzfc_unused_from (fst (gzfc_insert_all s zn (a # as))) zn (c + of_nat (length (a # as)))"
      using IH unfolding e by (simp add: case_prod_beta Let_def)
  next
    fix j assume j: "j < c"
    have "gzfc_slot (fst (gzfc_insert_all ?s1 zn as)) zn j = gzfc_slot ?s1 zn j"
      using IH lt1 [OF j] by blast
    also have "\<dots> = gzfc_slot s zn j" by (rule st(4) [OF j])
    finally show "gzfc_slot (fst (gzfc_insert_all s zn (a # as))) zn j = gzfc_slot s zn j"
      by (simp add: case_prod_beta Let_def)
  qed
qed

lemma round_page_ge:
  assumes "unat x < 2 ^ 36"
  shows "unat x \<le> unat (round_page x)"
proof -
  define y where "y = x + 4095"
  have uy: "unat y = unat x + 4095"
  proof -
    have "unat x + unat (4095 :: 64 word) < 2 ^ LENGTH(64)" using assms by simp
    then have "unat (x + 4095) = unat x + unat (4095 :: 64 word)" by (simp only: unat_add_lem)
    then show ?thesis by (simp add: y_def)
  qed
  have le: "y AND PAGE_MASK \<le> y" by (rule word_and_le2)
  have m: "unat (y AND PAGE_MASK) \<le> 4095"
    using and_PAGE_MASK_le [of y] by (simp add: word_le_nat_alt)
  have "round_page x = y - (y AND PAGE_MASK)"
    unfolding round_page_def and_not_eq_diff by (simp add: y_def PAGE_MASK_def PAGE_SIZE_def)
  then have "unat (round_page x) = unat y - unat (y AND PAGE_MASK)"
    using le by (simp add: unat_sub)
  with uy m show ?thesis by simp
qed

lemma gzfc_array_within:
  fixes i n :: "32 word" and k :: "64 word"
  assumes "i < n" and "k < 8"
  shows "8 * ucast i + k < round_page (8 * ucast n)"
proof -
  have bi: "unat i < unat n" using assms(1) by (simp add: word_less_nat_alt)
  have bn: "unat n < 2 ^ 32" using unsigned_less [of n] by simp
  have bk: "unat k < 8" using assms(2) by (simp add: word_less_nat_alt)
  have ui: "unat (8 * ucast i :: 64 word) = 8 * unat i"
    using bi bn by (simp add: unat_word_ariths unat_ucast_32_64)
  have un: "unat (8 * ucast n :: 64 word) = 8 * unat n"
    using bn by (simp add: unat_word_ariths unat_ucast_32_64)
  have "unat (8 * ucast i :: 64 word) + unat k < 2 ^ LENGTH(64)" using ui bi bn bk by simp
  then have "unat (8 * ucast i + k) = unat (8 * ucast i :: 64 word) + unat k"
    by (simp only: unat_add_lem)
  then have "unat (8 * ucast i + k) < 8 * unat n" using ui bi bk by simp
  also have "\<dots> \<le> unat (round_page (8 * ucast n))"
    using round_page_ge [of "8 * ucast n"] un bn by simp
  finally show ?thesis by (simp add: word_less_nat_alt)
qed

lemma load64_bzero:
  fixes i n :: "32 word"
  assumes "i < n"
  shows "load64 (bzero m p (round_page (8 * ucast n))) (p + 8 * ucast i) = 0"
proof -
  have "8 * ucast i + k < round_page (8 * ucast n)" if "k < 8" for k :: "64 word"
    using assms that by (rule gzfc_array_within)
  from this [of 0] this [of 1] this [of 2] this [of 3] this [of 4] this [of 5] this [of 6] this [of 7]
  show ?thesis
    by (simp add: load64_def bzero_def memset_def)
qed

lemma gzalloc_zone_init_fresh:
  assumes el: "gz_eligible s0 zn" and nz: "gzfc_size s0 \<noteq> 0"
    and r: "gzalloc_zone_init s0 zn env = Inr s"
  shows "gzfc_fresh s zn" "gzfc_size s = gzfc_size s0"
proof -
  from el have md: "gzalloc_mode s0" and w: "ucast (gzalloc_min s0) \<le> elem_size (zones s0 zn)"
    "elem_size (zones s0 zn) \<le> ucast (gzalloc_max s0)" "\<not> gzalloc_exempt (zones s0 zn)"
    by (simp_all add: gz_eligible_def)
  let ?n = "round_page (8 * ucast (gzfc_size s0))"
  from r md w nz have
    "(\<exists>p. gzfc (gz (zones s zn)) = p \<and> mem s = bzero (mem s0) p ?n) \<and>
     gzfc_index (gz (zones s zn)) = 0 \<and> gzfc_size s = gzfc_size s0"
    unfolding gzalloc_zone_init_def Let_def case_prod_beta
    by (auto simp: zone_update_def log_call_def split: if_splits)
  then show "gzfc_fresh s zn" "gzfc_size s = gzfc_size s0"
    by (auto simp: gzfc_fresh_def gzfc_unused_from_def gzfc_slot_def load64_bzero)
qed

lemma gzfc_ring:
  assumes nz: "gzfc_size s \<noteq> 0" and fr: "gzfc_fresh s zn"
    and len: "length as = unat (gzfc_size s) + 1"
  shows "snd (gzfc_insert_all s zn as) = replicate (unat (gzfc_size s)) 0 @ [hd as]"
proof -
  define n where "n = unat (gzfc_size s)"
  have n0: "0 < n" using nz by (simp add: n_def unat_gt_0)
  from len obtain a as1 where as: "as = a # as1" and l1: "length as1 = n"
    by (cases as) (simp_all add: n_def)
  from l1 n0 obtain mid b where as1: "as1 = mid @ [b]" and lm: "length mid = n - 1"
    by (cases as1 rule: rev_cases) simp_all
  let ?s1 = "fst (gzfc_insert s zn a)"
  let ?s2 = "fst (gzfc_insert_all ?s1 zn mid)"
  have u0: "gzfc_unused_from s zn 0" using fr by (simp add: gzfc_fresh_def)
  have lt0: "0 < gzfc_size s" using nz by (simp add: word_neq_0_conv)
  note st = gzfc_insert_unused [OF u0 lt0, where a = a]
  have sz1: "gzfc_size ?s1 = gzfc_size s" by (rule gzfc_insert_props)
  have b: "unat (0 + 1 :: 32 word) + length mid \<le> unat (gzfc_size ?s1)"
    using lm n0 by (simp add: sz1 n_def)
  note m = gzfc_insert_all_unused [OF st(2) b]
  have sz2: "gzfc_size ?s2 = gzfc_size s" by (simp add: gzfc_insert_all_size sz1)
  have "(0 + 1 :: 32 word) + of_nat (length mid) = of_nat (Suc (n - 1))" by (simp add: lm)
  also have "\<dots> = gzfc_size s" using n0 by (simp add: n_def)
  finally have full: "(0 + 1 :: 32 word) + of_nat (length mid) = gzfc_size s" .
  from m have idx2: "gzfc_index (gz (zones ?s2 zn)) = gzfc_size s"
    unfolding full by (simp add: gzfc_unused_from_def)
  have cur2: "gzfc_cursor ?s2 zn = 0" by (simp add: gzfc_cursor_def idx2 sz2)
  have "gzfc_slot ?s2 zn 0 = gzfc_slot ?s1 zn 0" using m by simp
  also have "\<dots> = a" by (rule st(3))
  finally have ev: "snd (gzfc_insert ?s2 zn b) = a"
    by (simp add: gzfc_insert_props(1) cur2)
  have r: "snd (gzfc_insert_all s zn as) = (0 # replicate (n - 1) 0) @ [a]"
    using st(1) m ev
    by (simp add: as as1 gzfc_insert_all_append case_prod_beta Let_def lm)
  have "0 # replicate (n - 1) (0 :: 64 word) = replicate n 0"
    using n0 by (cases n) simp_all
  with r show ?thesis by (simp add: n_def as)
qed

section \<open>Frees into a cache with unused slots\<close>

lemma only_protects_refl: "only_protects s s"
  by (simp add: only_protects_def new_calls_def)

lemma only_protects_same_log: "vm_log s' = vm_log s \<Longrightarrow> only_protects s s'"
  by (simp add: only_protects_def new_calls_def)

lemma only_protects_step:
  "vm_log s' = vm_log s @ [VM_MAP_PROTECT a e p] \<Longrightarrow> only_protects s s'"
  by (simp add: only_protects_def new_calls_def)

lemma only_protects_appendD:
  "only_protects s s' \<Longrightarrow> \<exists>l. vm_log s' = vm_log s @ l \<and> list_all is_protect l"
  unfolding only_protects_def new_calls_def
  by (metis append_take_drop_id)

lemma only_protects_trans:
  assumes "only_protects s s1" and "only_protects s1 s'"
  shows "only_protects s s'"
proof -
  from only_protects_appendD [OF assms(1)] obtain l1 where
    l1: "vm_log s1 = vm_log s @ l1" "list_all is_protect l1" by blast
  from only_protects_appendD [OF assms(2)] obtain l2 where
    l2: "vm_log s' = vm_log s1 @ l2" "list_all is_protect l2" by blast
  show ?thesis
    unfolding only_protects_def new_calls_def using l1 l2 by simp
qed

lemma is_protect_not_remove: "is_protect c \<Longrightarrow> \<not> is_remove c"
  by (cases c) simp_all

lemma only_protects_not_released: "only_protects s s' \<Longrightarrow> \<not> released s s'"
  unfolding only_protects_def released_def
  by (auto simp: list_ex_iff list_all_iff is_protect_not_remove)

lemma gzalloc_free_not_eligible: "\<not> gz_eligible s zn \<Longrightarrow> gzalloc_free s zn addr env = Inr (s, False)"
  by (simp add: gzalloc_free_def)

lemma gzfree_quarantine_unused:
  assumes u: "gzfc_unused_from s zn c" and lt: "c < gzfc_size s"
    and r: "gzfree_quarantine s zn saddr rs env = Inr (s', b)"
  shows "gzfc_unused_from s' zn (c + 1)" "gzfc_size s' = gzfc_size s"
    "only_protects s s'"
    "count (zones s' zn) = count (zones s zn)" "cur_size (zones s' zn) = cur_size (zones s zn)"
    "gzalloc_freed s' = gzalloc_freed s" "gzalloc_wasted s' = gzalloc_wasted s"
proof -
  from lt have nz: "gzfc_size s \<noteq> 0" by auto
  define s2 where "s2 = log_call (VM_MAP_PROTECT saddr (saddr + rs + PAGE_SIZE) (gzalloc_prot s))
                   (s\<lparr>pdzfree_count := (if preemption_level env \<noteq> 0 then pdzfree_count s + 1
                                           else pdzfree_count s)\<rparr>)"
  have f2: "zones s2 = zones s" "mem s2 = mem s" "gzfc_size s2 = gzfc_size s"
    "vm_log s2 = vm_log s @ [VM_MAP_PROTECT saddr (saddr + rs + PAGE_SIZE) (gzalloc_prot s)]"
    "gzalloc_freed s2 = gzalloc_freed s" "gzalloc_wasted s2 = gzalloc_wasted s"
    by (simp_all add: s2_def log_call_def)
  have u2: "gzfc_unused_from s2 zn c"
    using u by (simp add: gzfc_unused_from_frame [OF f2(1-3)])
  have lt2: "c < gzfc_size s2" using lt by (simp add: f2)
  note st = gzfc_insert_unused [OF u2 lt2, where a = saddr]
  from r have "gzfree_release (fst (gzfc_insert s2 zn saddr)) zn (snd (gzfc_insert s2 zn saddr)) rs env
      = Inr (s', b)"
    unfolding s2_def by (simp add: gzfree_quarantine_cache [OF nz] Let_def split: if_splits)
  then have s': "s' = fst (gzfc_insert s2 zn saddr)"
    by (simp add: st(1) gzfree_release_none)
  show "gzfc_unused_from s' zn (c + 1)" unfolding s' by (rule st(2))
  show "gzfc_size s' = gzfc_size s" unfolding s' by (simp add: gzfc_insert_props f2)
  show "only_protects s s'"
    by (rule only_protects_step [of _ _ saddr "saddr + rs + PAGE_SIZE" "gzalloc_prot s"])
       (simp add: s' gzfc_insert_eq f2)
  show "count (zones s' zn) = count (zones s zn)" "cur_size (zones s' zn) = cur_size (zones s zn)"
    "gzalloc_freed s' = gzalloc_freed s" "gzalloc_wasted s' = gzalloc_wasted s"
    unfolding s' by (simp_all add: gzfc_insert_eq f2)
qed

lemma gzalloc_free_unused:
  assumes u: "gzfc_unused_from s zn c" and lt: "c < gzfc_size s"
    and r: "gzalloc_free s zn addr env = Inr (s', b)"
  shows "(gzfc_unused_from s' zn c \<or> gzfc_unused_from s' zn (c + 1)) \<and>
         gzfc_size s' = gzfc_size s \<and>
         only_protects s s' \<and>
         count (zones s' zn) = count (zones s zn) \<and> cur_size (zones s' zn) = cur_size (zones s zn) \<and>
         gzalloc_freed s' = gzalloc_freed s \<and> gzalloc_wasted s' = gzalloc_wasted s"
proof (cases "gz_eligible s zn")
  case False
  with r have "s' = s" by (simp add: gzalloc_free_not_eligible)
  with u show ?thesis by (simp add: only_protects_refl)
next
  case True
  show ?thesis
  proof (cases "\<not> kmem_ready s \<or> gzh_gzone (mem s) (gzfree_gzh s zn addr) = GZDEADZONE")
    case early: True
    with r have s': "s' = s\<lparr>gzalloc_early_free := gzalloc_early_free s + SInt32 (gz_rounded_size s zn)\<rparr>"
      by (auto simp add: gzalloc_free_eligible [OF True] split: if_splits option.splits)
    have "gzfc_unused_from s' zn c"
      using u unfolding s' by (simp add: gzfc_unused_from_def gzfc_slot_def)
    then show ?thesis by (simp add: s' only_protects_same_log)
  next
    case False
    with r have "gzfree_quarantine s zn (gzfree_saddr s zn addr) (gz_rounded_size s zn) env = Inr (s', b)"
      by (auto simp add: gzalloc_free_eligible [OF True] split: if_splits option.splits)
    from gzfree_quarantine_unused [OF u lt this] show ?thesis by simp
  qed
qed

lemma gzalloc_free_all_unused:
  assumes "gzfc_unused_from s zn c" and "unat c + length frees \<le> unat (gzfc_size s)"
    and "gzalloc_free_all s zn frees = Inr s'"
  shows "only_protects s s' \<and>
         count (zones s' zn) = count (zones s zn) \<and> cur_size (zones s' zn) = cur_size (zones s zn) \<and>
         gzalloc_freed s' = gzalloc_freed s \<and> gzalloc_wasted s' = gzalloc_wasted s"
  using assms
proof (induction frees arbitrary: s c)
  case Nil
  then show ?case by (simp add: only_protects_refl)
next
  case (Cons f frees)
  obtain a env where f: "f = (a, env)" by (cases f)
  from Cons.prems(3) obtain s1 b where
    r1: "gzalloc_free s zn a env = Inr (s1, b)" and rest: "gzalloc_free_all s1 zn frees = Inr s'"
    by (auto simp: f split: sum.splits)
  from Cons.prems(2) have lt: "c < gzfc_size s" by (simp add: word_less_nat_alt)
  note st = gzalloc_free_unused [OF Cons.prems(1) lt r1]
  then have sz: "gzfc_size s1 = gzfc_size s" by simp
  from st have "gzfc_unused_from s1 zn c \<or> gzfc_unused_from s1 zn (c + 1)" by simp
  then have "only_protects s1 s' \<and>
         count (zones s' zn) = count (zones s1 zn) \<and> cur_size (zones s' zn) = cur_size (zones s1 zn) \<and>
         gzalloc_freed s' = gzalloc_freed s1 \<and> gzalloc_wasted s' = gzalloc_wasted s1"
  proof
    assume u1: "gzfc_unused_from s1 zn c"
    have "unat c + length frees \<le> unat (gzfc_size s1)" using Cons.prems(2) by (simp add: sz)
    from Cons.IH [OF u1 this rest] show ?thesis .
  next
    assume u1: "gzfc_unused_from s1 zn (c + 1)"
    have "unat (c + 1) + length frees \<le> unat (gzfc_size s1)"
      using Cons.prems(2) word32_succ(1) [OF lt] by (simp add: sz)
    from Cons.IH [OF u1 this rest] show ?thesis .
  qed
  with st show ?case by (auto intro: only_protects_trans)
qed

lemma ex_run_init:
  "gzalloc_zone_init ex_state3 0x4000 ex_init_env =
     Inr (ex_run_state 0 (bzero ex_mem3 0x200000 0x1000) [KMA_KERNEL_MAP 0x1000] 0 0 0 0)"
  by (simp add: gzalloc_zone_init_def ex_state3_def ex_state_def ex_zone_def ex_init_env_def ex_env_def
      ex_run_state_def zone_update_def log_call_def Let_def KERN_SUCCESS_def round_page_def
      PAGE_MASK_def PAGE_SIZE_def)

lemma ex_run_free:
  assumes hdr: "gzh_gzsig m (addr - 16) = GZALLOC_SIGNATURE" "gzh_gzone m (addr - 16) = 0x4000"
      "gzh_gzsize m (addr - 16) = 1024"
    and al: "(addr - 0xC00) AND PAGE_MASK = 0"
    and c: "c = (if 2 \<le> idx then 0 else idx)"
  shows "gzalloc_free (ex_run_state idx m lg cnt cs fr ws) 0x4000 addr ex_env =
     (if load64 m (0x200000 + 8 * ucast c) = 0
      then Inr (ex_run_state (c + 1) (store64 m (0x200000 + 8 * ucast c) (addr - 0xC00))
                  (lg @ [VM_MAP_PROTECT (addr - 0xC00) (addr - 0xC00 + 0x2000) VM_PROT_NONE])
                  cnt cs fr ws, True)
      else Inr (ex_run_state (c + 1) (store64 m (0x200000 + 8 * ucast c) (addr - 0xC00))
                  (lg @ [VM_MAP_PROTECT (addr - 0xC00) (addr - 0xC00 + 0x2000) VM_PROT_NONE,
                         VM_MAP_REMOVE (load64 m (0x200000 + 8 * ucast c))
                           (load64 m (0x200000 + 8 * ucast c) + 0x2000)])
                  (cnt - 1) (cs - 0x1000) (fr + 0x1000) (ws - 0xC00), True))"
proof -
  let ?s = "ex_run_state idx m lg cnt cs fr ws"
  have el: "gz_eligible ?s 0x4000"
    by (simp add: gz_eligible_def ex_run_state_def ex_state_def ex_zone_def)
  have es: "elem_size (zones ?s 0x4000) = 1024" "\<not> gzalloc_uf_mode ?s" "mem ?s = m"
    "kmem_ready ?s" "gzfc_size ?s = 2" "gzalloc_consistency_checks ?s"
    by (simp_all add: ex_run_state_def ex_state_def ex_zone_def)
  have rd: "gz_rounded_size ?s 0x4000 = 0x1000"
    by (simp add: gz_rounded_size_def es round_page_def PAGE_MASK_def PAGE_SIZE_def GZHEADER_SIZE_def)
  have rs: "gz_residue ?s 0x4000 = 0xC00" by (simp add: gz_residue_def rd es)
  have gh: "gzfree_gzh ?s 0x4000 addr = addr - 16"
    by (simp add: gzfree_gzh_def gzfree_locate_def es rs GZHEADER_SIZE_def)
  have sa: "gzfree_saddr ?s 0x4000 addr = addr - 0xC00"
    by (simp add: gzfree_saddr_def gzfree_locate_def es rs)
  have ok: "gzfree_assert_ok ?s 0x4000 addr" by (simp add: gzfree_assert_ok_def sa al)
  have cs: "gzfree_consistency ?s 0x4000 (addr - 16) = None"
    by (simp add: gzfree_consistency_def es hdr)
  have ne: "gzh_gzone (mem ?s) (addr - 16) \<noteq> GZDEADZONE" by (simp add: es hdr GZDEADZONE_def)
  have nz: "gzfc_size ?s \<noteq> 0" by (simp add: es)
  have pr: "protect_result ex_env = KERN_SUCCESS" "remove_result ex_env = KERN_SUCCESS"
    "preemption_level ex_env = 0"
    by (simp_all add: ex_env_def)
  have s32: "SInt32 0x1000 = 0x1000" by (rule SInt32_small) simp
  have n32: "neg_SInt32 0xC00 = - 0xC00" by (rule neg_SInt32_small) simp
  have q: "gzalloc_free ?s 0x4000 addr ex_env =
      gzfree_quarantine ?s 0x4000 (addr - 0xC00) 0x1000 ex_env"
    using ok cs ne es(4) by (simp add: gzalloc_free_eligible [OF el] gh sa rd)
  show ?thesis
  proof (cases "2 \<le> idx")
    case True
    with c have c0: "c = 0" by simp
    show ?thesis
      unfolding q gzfree_quarantine_cache [OF nz] pr c0
      using True
      by (simp add: Let_def gzfc_insert_eq ex_run_state_def ex_state_def ex_zone_def log_call_def
          gzfree_release_def zone_update_def pr OSAddAtomic64_def s32 n32 PAGE_SIZE_def)
  next
    case False
    with c have c0: "c = idx" by simp
    show ?thesis
      unfolding q gzfree_quarantine_cache [OF nz] pr c0
      using False
      by (simp add: Let_def gzfc_insert_eq ex_run_state_def ex_state_def ex_zone_def log_call_def
          gzfree_release_def zone_update_def pr OSAddAtomic64_def s32 n32 PAGE_SIZE_def)
  qed
qed

lemma ex_mem3_facts:
  "gzh_gzsig (bzero ex_mem3 0x200000 0x1000) 0x10BF0 = GZALLOC_SIGNATURE"
  "gzh_gzone (bzero ex_mem3 0x200000 0x1000) 0x10BF0 = 0x4000"
  "gzh_gzsize (bzero ex_mem3 0x200000 0x1000) 0x10BF0 = 1024"
  "load64 (bzero ex_mem3 0x200000 0x1000) 0x200000 = 0"
  "gzh_gzsig (store64 (bzero ex_mem3 0x200000 0x1000) 0x200000 0x10000) 0x20BF0 = GZALLOC_SIGNATURE"
  "gzh_gzone (store64 (bzero ex_mem3 0x200000 0x1000) 0x200000 0x10000) 0x20BF0 = 0x4000"
  "gzh_gzsize (store64 (bzero ex_mem3 0x200000 0x1000) 0x200000 0x10000) 0x20BF0 = 1024"
  "load64 (store64 (bzero ex_mem3 0x200000 0x1000) 0x200000 0x10000) 0x200008 = 0"
  "gzh_gzsig (store64 (store64 (bzero ex_mem3 0x200000 0x1000) 0x200000 0x10000) 0x200008 0x20000)
     0x30BF0 = GZALLOC_SIGNATURE"
  "gzh_gzone (store64 (store64 (bzero ex_mem3 0x200000 0x1000) 0x200000 0x10000) 0x200008 0x20000)
     0x30BF0 = 0x4000"
  "gzh_gzsize (store64 (store64 (bzero ex_mem3 0x200000 0x1000) 0x200000 0x10000) 0x200008 0x20000)
     0x30BF0 = 1024"
  "load64 (store64 (store64 (bzero ex_mem3 0x200000 0x1000) 0x200000 0x10000) 0x200008 0x20000)
     0x200000 = 0x10000"
  by (simp_all add: gzh_gzsig_def gzh_gzone_def gzh_gzsize_def load32_def load64_def store64_def
      bzero_def memset_def ex_mem3_def gzalloc_write_header_def store32_def GZALLOC_SIGNATURE_def)

lemma ex_run_first:
  "gzalloc_free (ex_run_state 0 (bzero ex_mem3 0x200000 0x1000) [KMA_KERNEL_MAP 0x1000] 0 0 0 0)
     0x4000 0x10C00 ex_env =
   Inr (ex_run_state 1 (store64 (bzero ex_mem3 0x200000 0x1000) 0x200000 0x10000)
          [KMA_KERNEL_MAP 0x1000, VM_MAP_PROTECT 0x10000 0x12000 VM_PROT_NONE] 0 0 0 0, True)"
  by (subst ex_run_free [where c = 0]) (simp_all add: ex_mem3_facts PAGE_MASK_def PAGE_SIZE_def)

lemma ex_run_second:
  "gzalloc_free (ex_run_state 1 (store64 (bzero ex_mem3 0x200000 0x1000) 0x200000 0x10000)
                   [KMA_KERNEL_MAP 0x1000, VM_MAP_PROTECT 0x10000 0x12000 VM_PROT_NONE] 0 0 0 0)
     0x4000 0x20C00 ex_env =
   Inr (ex_run_state 2
          (store64 (store64 (bzero ex_mem3 0x200000 0x1000) 0x200000 0x10000) 0x200008 0x20000)
          [KMA_KERNEL_MAP 0x1000, VM_MAP_PROTECT 0x10000 0x12000 VM_PROT_NONE,
           VM_MAP_PROTECT 0x20000 0x22000 VM_PROT_NONE] 0 0 0 0, True)"
  by (subst ex_run_free [where c = 1])
     (simp_all add: ex_mem3_facts PAGE_MASK_def PAGE_SIZE_def word_le_nat_alt)

lemma ex_run_third:
  "gzalloc_free
     (ex_run_state 2
        (store64 (store64 (bzero ex_mem3 0x200000 0x1000) 0x200000 0x10000) 0x200008 0x20000)
        [KMA_KERNEL_MAP 0x1000, VM_MAP_PROTECT 0x10000 0x12000 VM_PROT_NONE,
         VM_MAP_PROTECT 0x20000 0x22000 VM_PROT_NONE] 0 0 0 0)
     0x4000 0x30C00 ex_env =
   Inr (ex_run_state 1
          (store64 (store64 (store64 (bzero ex_mem3 0x200000 0x1000) 0x200000 0x10000) 0x200008 0x20000)
             0x200000 0x30000)
          [KMA_KERNEL_MAP 0x1000, VM_MAP_PROTECT 0x10000 0x12000 VM_PROT_NONE,
           VM_MAP_PROTECT 0x20000 0x22000 VM_PROT_NONE, VM_MAP_PROTECT 0x30000 0x32000 VM_PROT_NONE,
           VM_MAP_REMOVE 0x10000 0x12000]
          (- 1) (- 0x1000) 0x1000 (- 0xC00), True)"
  by (subst ex_run_free [where c = 0]) (simp_all add: ex_mem3_facts PAGE_MASK_def PAGE_SIZE_def)

lemma ex_run_two:
  "gzalloc_init_then_free ex_state3 0x4000 ex_init_env [(0x10C00, ex_env), (0x20C00, ex_env)] =
     Inr (ex_run_state 0 (bzero ex_mem3 0x200000 0x1000) [KMA_KERNEL_MAP 0x1000] 0 0 0 0,
          ex_run_state 2
            (store64 (store64 (bzero ex_mem3 0x200000 0x1000) 0x200000 0x10000) 0x200008 0x20000)
            [KMA_KERNEL_MAP 0x1000, VM_MAP_PROTECT 0x10000 0x12000 VM_PROT_NONE,
             VM_MAP_PROTECT 0x20000 0x22000 VM_PROT_NONE] 0 0 0 0)"
  by (simp add: gzalloc_init_then_free_def ex_run_init ex_run_first ex_run_second)

lemma ex_run_three:
  "gzalloc_init_then_free ex_state3 0x4000 ex_init_env
     [(0x10C00, ex_env), (0x20C00, ex_env), (0x30C00, ex_env)] =
     Inr (ex_run_state 0 (bzero ex_mem3 0x200000 0x1000) [KMA_KERNEL_MAP 0x1000] 0 0 0 0,
          ex_run_state 1
            (store64 (store64 (store64 (bzero ex_mem3 0x200000 0x1000) 0x200000 0x10000)
               0x200008 0x20000) 0x200000 0x30000)
            [KMA_KERNEL_MAP 0x1000, VM_MAP_PROTECT 0x10000 0x12000 VM_PROT_NONE,
             VM_MAP_PROTECT 0x20000 0x22000 VM_PROT_NONE, VM_MAP_PROTECT 0x30000 0x32000 VM_PROT_NONE,
             VM_MAP_REMOVE 0x10000 0x12000]
            (- 1) (- 0x1000) 0x1000 (- 0xC00))"
  by (simp add: gzalloc_init_then_free_def ex_run_init ex_run_first ex_run_second ex_run_third)

section \<open>Allocations from the reserve\<close>

lemma gzalloc_alloc_early:
  assumes el: "gz_eligible s zn" and pl: "preemption_level env = 0"
    and early: "\<not> kmem_ready s"
    and enough: "\<not> gzalloc_reserve_size s < gz_rounded_size s zn"
  shows "\<exists>s' a. gzalloc_alloc s zn canblock env = Inr (s', a) \<and>
           gzalloc_reserve_size s' = gzalloc_reserve_size s - (gz_rounded_size s zn + PAGE_SIZE) \<and>
           gzalloc_reserve s' = gzalloc_reserve s + (gz_rounded_size s zn + PAGE_SIZE) \<and>
           kmem_ready s' = kmem_ready s \<and> gzalloc_mode s' = gzalloc_mode s \<and>
           gzalloc_min s' = gzalloc_min s \<and> gzalloc_max s' = gzalloc_max s \<and>
           elem_size (zones s' zn) = elem_size (zones s zn) \<and>
           gzalloc_exempt (zones s' zn) = gzalloc_exempt (zones s zn)"
  using el pl early enough
  unfolding gzalloc_alloc_def gzalloc_backing_def gz_rounded_size_def Let_def case_prod_beta
  by (simp add: zone_update_def)

lemma gzalloc_alloc_n_early:
  assumes "gz_eligible s zn" and "preemption_level env = 0" and "\<not> kmem_ready s"
    and "elem_size (zones s zn) = 1024"
    and "n * 8192 \<le> unat (gzalloc_reserve_size s) + 4096"
  shows "\<exists>s'. gzalloc_alloc_n n s zn canblock env = Inr s' \<and>
           gzalloc_reserve_size s' = gzalloc_reserve_size s - of_nat n * 0x2000"
  using assms
proof (induction n arbitrary: s)
  case 0
  then show ?case by simp
next
  case (Suc n)
  have rd: "gz_rounded_size s zn = 0x1000"
    by (simp add: gz_rounded_size_def Suc.prems(4) round_page_def PAGE_MASK_def PAGE_SIZE_def
        GZHEADER_SIZE_def)
  from Suc.prems(5) have r: "4096 \<le> unat (gzalloc_reserve_size s)" by simp
  then have enough: "\<not> gzalloc_reserve_size s < gz_rounded_size s zn"
    by (simp add: rd word_less_nat_alt)
  from gzalloc_alloc_early [OF Suc.prems(1-3) enough, of canblock] obtain s1 a where
    a1: "gzalloc_alloc s zn canblock env = Inr (s1, a)"
    and rs: "gzalloc_reserve_size s1 = gzalloc_reserve_size s - (gz_rounded_size s zn + PAGE_SIZE)"
    and fr: "kmem_ready s1 = kmem_ready s" "gzalloc_mode s1 = gzalloc_mode s"
      "gzalloc_min s1 = gzalloc_min s" "gzalloc_max s1 = gzalloc_max s"
      "elem_size (zones s1 zn) = elem_size (zones s zn)"
      "gzalloc_exempt (zones s1 zn) = gzalloc_exempt (zones s zn)"
    by blast
  have rs': "gzalloc_reserve_size s1 = gzalloc_reserve_size s - 0x2000"
    by (simp add: rs rd PAGE_SIZE_def)
  have el1: "gz_eligible s1 zn" using Suc.prems(1) by (simp add: gz_eligible_def fr)
  have k1: "\<not> kmem_ready s1" using Suc.prems(3) by (simp add: fr)
  have e1: "elem_size (zones s1 zn) = 1024" using Suc.prems(4) by (simp add: fr)
  have b1: "n * 8192 \<le> unat (gzalloc_reserve_size s1) + 4096"
  proof (cases n)
    case 0
    then show ?thesis by simp
  next
    case (Suc m)
    with Suc.prems(5) have big: "8192 \<le> unat (gzalloc_reserve_size s)" by simp
    then have "(0x2000 :: 64 word) \<le> gzalloc_reserve_size s" by (simp add: word_le_nat_alt)
    then have "unat (gzalloc_reserve_size s - 0x2000) = unat (gzalloc_reserve_size s) - 8192"
      by (simp add: unat_sub)
    with Suc.prems(5) big show ?thesis by (simp add: rs')
  qed
  from Suc.IH [OF el1 Suc.prems(2) k1 e1 b1] obtain s' where
    n1: "gzalloc_alloc_n n s1 zn canblock env = Inr s'"
    and rn: "gzalloc_reserve_size s' = gzalloc_reserve_size s1 - of_nat n * 0x2000"
    by blast
  show ?case
    by (rule exI [of _ s']) (simp add: a1 n1 rn rs' algebra_simps)
qed

section \<open>Evaluations on the concrete states\<close>

lemma ex_alloc_no_panic: "\<not> isl (gzalloc_alloc ex_state 0x4000 True ex_env)"
  by (simp add: gzalloc_alloc_def gz_eligible_def ex_state_def ex_zone_def ex_env_def
        gzalloc_backing_def Let_def KERN_SUCCESS_def ZONE_NULL_def log_call_def gzalloc_layout_def
        zone_update_def)

lemma ex_nocache_free:
  "\<exists>s'. gzalloc_free (ex_state\<lparr>gzfc_size := 0, mem := ex_mem 0x4000\<rparr>) 0x4000 0x10C00 ex_env = Inr (s', True) \<and>
        released (ex_state\<lparr>gzfc_size := 0, mem := ex_mem 0x4000\<rparr>) s'"
proof -
  let ?s = "ex_state\<lparr>gzfc_size := 0, mem := ex_mem 0x4000\<rparr>"
  have z: "zones ?s = (\<lambda>z. ex_zone)" "\<not> gzalloc_uf_mode ?s"
    by (simp_all add: ex_state_def)
  have el: "gz_eligible ?s 0x4000"
    by (rule ex_eligible; simp add: ex_state_def)
  note g = ex_geometry [OF z, where zn = "0x4000"]
  have m: "mem ?s = ex_mem 0x4000" by simp
  have cs: "gzfree_consistency ?s 0x4000 (gzfree_gzh ?s 0x4000 0x10C00) = None"
    unfolding g(3) gzfree_consistency_def m ex_mem_header by (simp add: ex_state_def ex_zone_def)
  have dz: "gzh_gzone (mem ?s) (gzfree_gzh ?s 0x4000 0x10C00) \<noteq> GZDEADZONE"
    unfolding g(3) m ex_mem_header by (simp add: GZDEADZONE_def)
  have kr: "kmem_ready ?s" by (simp add: ex_state_def)
  have fc: "gzfc_size ?s = 0" by simp
  have sa: "gzfree_saddr ?s 0x4000 0x10C00 \<noteq> 0" unfolding g(4) by simp
  have rr: "remove_result ex_env = KERN_SUCCESS" by (simp add: ex_env_def)
  show ?thesis
    unfolding gzalloc_free_nocache_result [OF el g(5) cs kr dz fc sa rr]
    by (simp add: released_def new_calls_def)
qed

section \<open>An allocation followed by its free\<close>

text \<open>
  What an allocation leaves untouched, the calls it logs, when it panics, and what
  \<^verbatim>\<open>gzalloc_free\<close> does with the address it returned.
\<close>

lemma backing_frame:
  assumes "gzalloc_backing s r env = Inr (s2, g)"
  shows "gzalloc_mode s2 = gzalloc_mode s" "gzalloc_min s2 = gzalloc_min s"
    "gzalloc_max s2 = gzalloc_max s" "MACH_ASSERT s2 = MACH_ASSERT s"
    "gzalloc_consistency_checks s2 = gzalloc_consistency_checks s"
    "gzfc_size s2 = gzfc_size s" "gzalloc_guard s2 = gzalloc_guard s"
    "gzalloc_prot s2 = gzalloc_prot s" "pdzfree_count s2 = pdzfree_count s"
    "gzalloc_early_free s2 = gzalloc_early_free s" "gzalloc_freed s2 = gzalloc_freed s"
    "vm_log s2 = (if \<not> kmem_ready s \<or> vm_page_zone s = ZONE_NULL then vm_log s
                  else vm_log s @ [KMA_GZALLOC_MAP (r + PAGE_SIZE) (gzalloc_guard s)])"
    "gzalloc_reserve s2 = (if \<not> kmem_ready s \<or> vm_page_zone s = ZONE_NULL
                           then gzalloc_reserve s + (r + PAGE_SIZE) else gzalloc_reserve s)"
  using assms
  by (auto simp: gzalloc_backing_def log_call_def Let_def split: if_splits prod.splits)

lemma gzalloc_alloc_cases:
  assumes r: "gzalloc_alloc s zn canblock env = Inr (s', a)"
  obtains (same) "s' = s" "a = 0" "\<not> gz_eligible s zn \<or> preemption_level env \<noteq> 0 \<and> \<not> canblock"
  | (alloc) s2 g m z al w where
      "gz_eligible s zn" "\<not> (preemption_level env \<noteq> 0 \<and> \<not> canblock)"
      "gzalloc_backing (if preemption_level env \<noteq> 0 then s\<lparr>pdzalloc_count := pdzalloc_count s + 1\<rparr> else s)
         (gz_rounded_size s zn) env = Inr (s2, g)"
      "s' = s2\<lparr>mem := m, zones := z, gzalloc_allocated := al, gzalloc_wasted := w\<rparr>"
proof (cases "gz_eligible s zn \<and> \<not> (preemption_level env \<noteq> 0 \<and> \<not> canblock)")
  case False
  with r have "s' = s \<and> a = 0"
    by (cases "gz_eligible s zn") (simp_all add: gzalloc_alloc_def)
  with False same show thesis by blast
next
  case True
  define s1 where "s1 = (if preemption_level env \<noteq> 0 then s\<lparr>pdzalloc_count := pdzalloc_count s + 1\<rparr> else s)"
  have z1: "zones s1 = zones s" by (simp add: s1_def)
  have eq: "gzalloc_alloc s zn canblock env =
          (let esize = elem_size (zones s1 zn);
               rounded_size = round_page (esize + GZHEADER_SIZE);
               residue = rounded_size - esize
           in case gzalloc_backing s1 rounded_size env of
               Inl p \<Rightarrow> Inl p
             | Inr (s2, gzaddr0) \<Rightarrow>
                 let (gzaddr, gzh, addr) = gzalloc_layout (gzalloc_uf_mode s2) gzaddr0 esize residue;
                     m1 = memset (mem s2) gzaddr (gzalloc_fill_pattern s2) rounded_size;
                     m2 = gzalloc_write_header m1 gzh
                            (if kmem_ready s2 \<and> vm_page_zone s2 \<noteq> ZONE_NULL then zn else GZDEADZONE)
                            esize;
                     s3 = s2\<lparr>mem := m2\<rparr>;
                     s4 = zone_update zn (\<lambda>z. z\<lparr>count := count z + 1,
                                                 sum_count := sum_count z + 1,
                                                 cur_size := cur_size z + rounded_size\<rparr>) s3;
                     s5 = s4\<lparr>gzalloc_allocated := OSAddAtomic64 (SInt32 rounded_size) (gzalloc_allocated s4)\<rparr>;
                     s6 = s5\<lparr>gzalloc_wasted :=
                               OSAddAtomic64 (SInt32 (rounded_size - elem_size (zones s5 zn))) (gzalloc_wasted s5)\<rparr>
                 in Inr (s6, addr))"
    using True unfolding gzalloc_alloc_def s1_def by (simp only: if_True if_False Let_def)
  show thesis
  proof (cases "gzalloc_backing s1 (gz_rounded_size s zn) env")
    case (Inl p)
    with eq r show thesis by (simp add: Let_def z1 gz_rounded_size_def)
  next
    case (Inr q)
    obtain s2 g where q: "q = (s2, g)" by (cases q)
    from eq r Inr q have "\<exists>m z al w. s' = s2\<lparr>mem := m, zones := z, gzalloc_allocated := al, gzalloc_wasted := w\<rparr>"
      unfolding Let_def case_prod_beta z1 gz_rounded_size_def [symmetric] zone_update_def
      by simp blast
    then show thesis using alloc True Inr q unfolding s1_def by blast
  qed
qed

lemma gzalloc_alloc_frame:
  assumes r: "gzalloc_alloc s zn canblock env = Inr (s', a)"
  shows "gzalloc_mode s' = gzalloc_mode s" "gzalloc_min s' = gzalloc_min s"
    "gzalloc_max s' = gzalloc_max s" "MACH_ASSERT s' = MACH_ASSERT s"
    "gzalloc_consistency_checks s' = gzalloc_consistency_checks s"
    "gzfc_size s' = gzfc_size s" "gzalloc_guard s' = gzalloc_guard s"
    "gzalloc_prot s' = gzalloc_prot s" "pdzfree_count s' = pdzfree_count s"
    "gzalloc_early_free s' = gzalloc_early_free s" "gzalloc_freed s' = gzalloc_freed s"
proof -
  from r have "gzalloc_mode s' = gzalloc_mode s \<and> gzalloc_min s' = gzalloc_min s \<and>
    gzalloc_max s' = gzalloc_max s \<and> MACH_ASSERT s' = MACH_ASSERT s \<and>
    gzalloc_consistency_checks s' = gzalloc_consistency_checks s \<and>
    gzfc_size s' = gzfc_size s \<and> gzalloc_guard s' = gzalloc_guard s \<and>
    gzalloc_prot s' = gzalloc_prot s \<and> pdzfree_count s' = pdzfree_count s \<and>
    gzalloc_early_free s' = gzalloc_early_free s \<and> gzalloc_freed s' = gzalloc_freed s"
  proof (cases rule: gzalloc_alloc_cases)
    case same
    then show ?thesis by simp
  next
    case (alloc s2 g m z al w)
    define s1 where "s1 = (if preemption_level env \<noteq> 0 then s\<lparr>pdzalloc_count := pdzalloc_count s + 1\<rparr> else s)"
    have f1: "gzalloc_mode s1 = gzalloc_mode s" "gzalloc_min s1 = gzalloc_min s"
      "gzalloc_max s1 = gzalloc_max s" "MACH_ASSERT s1 = MACH_ASSERT s"
      "gzalloc_consistency_checks s1 = gzalloc_consistency_checks s"
      "gzfc_size s1 = gzfc_size s" "gzalloc_guard s1 = gzalloc_guard s"
      "gzalloc_prot s1 = gzalloc_prot s" "pdzfree_count s1 = pdzfree_count s"
      "gzalloc_early_free s1 = gzalloc_early_free s" "gzalloc_freed s1 = gzalloc_freed s"
      by (simp_all add: s1_def)
    note b = backing_frame [OF alloc(3) [folded s1_def]]
    show ?thesis
      unfolding alloc(4) using b(1-11) f1 by simp
  qed
  then show "gzalloc_mode s' = gzalloc_mode s" "gzalloc_min s' = gzalloc_min s"
    "gzalloc_max s' = gzalloc_max s" "MACH_ASSERT s' = MACH_ASSERT s"
    "gzalloc_consistency_checks s' = gzalloc_consistency_checks s"
    "gzfc_size s' = gzfc_size s" "gzalloc_guard s' = gzalloc_guard s"
    "gzalloc_prot s' = gzalloc_prot s" "pdzfree_count s' = pdzfree_count s"
    "gzalloc_early_free s' = gzalloc_early_free s" "gzalloc_freed s' = gzalloc_freed s"
    by simp_all
qed

lemma ucast_32_roundtrip:
  fixes x :: "64 word" and m :: "32 word"
  assumes "x \<le> ucast m"
  shows "ucast (ucast x :: 32 word) = x"
proof -
  have "unat (ucast m :: 64 word) < 2 ^ 32"
    using unsigned_less [of m, where 'a = nat] by (simp add: unat_ucast_32_64)
  with assms have lt: "unat x < 2 ^ 32" by (simp add: word_le_nat_alt)
  have "unat (ucast (ucast x :: 32 word) :: 64 word) = unat (ucast x :: 32 word)"
    by (rule unat_ucast_32_64)
  also have "\<dots> = unat x"
    using lt by (simp add: unsigned_ucast_eq take_bit_nat_eq_self)
  finally show ?thesis by (simp add: word_unat_eq_iff)
qed

lemma gzalloc_alloc_then_free:
  assumes el: "gz_eligible s zn"
    and nf: "\<not> (preemption_level env \<noteq> 0 \<and> \<not> canblock)"
    and r: "gzalloc_alloc s zn canblock env = Inr (s', addr)"
  defines "L \<equiv> gzalloc_layout (gzalloc_uf_mode s) (gzalloc_base s env) (elem_size (zones s zn)) (gz_residue s zn)"
  shows "gz_eligible s' zn"
    and "gz_rounded_size s' zn = gz_rounded_size s zn"
    and "addr = snd (snd L)"
    and "gzfree_gzh s' zn addr = fst (snd L)"
    and "gzfree_saddr s' zn addr = gzalloc_base s env"
    and "gzh_gzsig (mem s') (fst (snd L)) = GZALLOC_SIGNATURE"
    and "gzh_gzone (mem s') (fst (snd L)) =
           (if kmem_ready s \<and> vm_page_zone s \<noteq> ZONE_NULL then zn else GZDEADZONE)"
    and "gzh_gzsize (mem s') (fst (snd L)) = ucast (elem_size (zones s zn))"
    and "gzfree_consistency s' zn (fst (snd L)) = None"
    and "gzalloc_free s' zn addr env' =
           (if MACH_ASSERT s \<and> gzalloc_base s env AND PAGE_MASK \<noteq> 0 then Inl Assert_Failed
            else if \<not> kmem_ready s \<or> vm_page_zone s = ZONE_NULL \<or> zn = GZDEADZONE
            then Inr (s'\<lparr>gzalloc_early_free := gzalloc_early_free s' + SInt32 (gz_rounded_size s zn)\<rparr>, True)
            else gzfree_quarantine s' zn (gzalloc_base s env) (gz_rounded_size s zn) env')"
proof -
  from r have np: "\<not> isl (gzalloc_alloc s zn canblock env)" by simp
  from gzalloc_alloc_result [OF el nf np] r have
    a: "addr = snd (snd L)"
    and m: "mem s' = gzalloc_write_header
                      (memset (mem s) (fst L) (gzalloc_fill_pattern s) (gz_rounded_size s zn))
                      (fst (snd L))
                      (if kmem_ready s \<and> vm_page_zone s \<noteq> ZONE_NULL then zn else GZDEADZONE)
                      (elem_size (zones s zn))"
    and z: "zones s' = (zones s)(zn := (zones s zn)\<lparr>count := count (zones s zn) + 1,
                                                    sum_count := sum_count (zones s zn) + 1,
                                                    cur_size := cur_size (zones s zn) + gz_rounded_size s zn\<rparr>)"
    and u: "gzalloc_uf_mode s' = gzalloc_uf_mode s"
    and k: "kmem_ready s' = kmem_ready s"
    unfolding L_def by auto
  note fr = gzalloc_alloc_frame [OF r]
  have e: "elem_size (zones s' zn) = elem_size (zones s zn)"
    and x: "gzalloc_exempt (zones s' zn) = gzalloc_exempt (zones s zn)" by (simp_all add: z)
  show el': "gz_eligible s' zn"
    using el by (simp add: gz_eligible_def fr e x)
  show rs: "gz_rounded_size s' zn = gz_rounded_size s zn" by (simp add: gz_rounded_size_def e)
  have res: "gz_residue s' zn = gz_residue s zn" by (simp add: gz_residue_def rs e)
  show "addr = snd (snd L)" by (rule a)
  show gzh: "gzfree_gzh s' zn addr = fst (snd L)"
    unfolding a L_def by (simp add: gzfree_gzh_def u e res locate_layout)
  show sa: "gzfree_saddr s' zn addr = gzalloc_base s env"
    unfolding a L_def by (simp add: gzfree_saddr_def u e res locate_layout)
  show sig: "gzh_gzsig (mem s') (fst (snd L)) = GZALLOC_SIGNATURE"
    by (simp add: m header_gzsig)
  show zone: "gzh_gzone (mem s') (fst (snd L)) =
           (if kmem_ready s \<and> vm_page_zone s \<noteq> ZONE_NULL then zn else GZDEADZONE)"
    by (simp only: m header_gzone)
  show size: "gzh_gzsize (mem s') (fst (snd L)) = ucast (elem_size (zones s zn))"
    by (simp only: m header_gzsize)
  from el have "elem_size (zones s zn) \<le> ucast (gzalloc_max s)" by (simp add: gz_eligible_def)
  then have rt: "ucast (ucast (elem_size (zones s zn)) :: 32 word) = elem_size (zones s zn)"
    by (rule ucast_32_roundtrip)
  show cons: "gzfree_consistency s' zn (fst (snd L)) = None"
    unfolding gzfree_consistency_def sig zone size rt e by simp
  have ok: "gzfree_assert_ok s' zn addr \<longleftrightarrow> \<not> (MACH_ASSERT s \<and> gzalloc_base s env AND PAGE_MASK \<noteq> 0)"
    by (simp add: gzfree_assert_ok_def sa fr)
  show "gzalloc_free s' zn addr env' =
           (if MACH_ASSERT s \<and> gzalloc_base s env AND PAGE_MASK \<noteq> 0 then Inl Assert_Failed
            else if \<not> kmem_ready s \<or> vm_page_zone s = ZONE_NULL \<or> zn = GZDEADZONE
            then Inr (s'\<lparr>gzalloc_early_free := gzalloc_early_free s' + SInt32 (gz_rounded_size s zn)\<rparr>, True)
            else gzfree_quarantine s' zn (gzalloc_base s env) (gz_rounded_size s zn) env')"
    unfolding gzalloc_free_eligible [OF el'] ok gzh cons sa rs zone k
    by simp
qed




section \<open>Claims\<close>

text \<open>
  C1. For every eligible allocation that is not turned away and does not panic, in either
  detection mode, \<^verbatim>\<open>gzalloc_free\<close> applied to the returned address in the resulting state
  (same element size) recomputes the geometry of \<^verbatim>\<open>gzalloc_alloc\<close>: the header pointer it
  derives is the one the allocation wrote the header at, and the signature, zone and size
  fields are read back there; the region start it derives is the base address of the
  backing region the allocation obtained. The call of \<^verbatim>\<open>gzalloc_free\<close> itself fails the
  page-alignment assertion only when assertions are compiled in and that base is not
  page-aligned; otherwise it passes every consistency check and either takes the
  early-free return or quarantines the region that starts at that base, with the rounded
  size of the allocation. So it panics with none of the three consistency panics, and
  when the base is page-aligned the derived start is too and the assertion holds.
\<close>

theorem gzalloc_free_recovers_geometry:
  assumes "gz_eligible s zn"
    and "\<not> (preemption_level env \<noteq> 0 \<and> \<not> canblock)"
    and "\<not> isl (gzalloc_alloc s zn canblock env)"
  shows "\<exists>s' addr. gzalloc_alloc s zn canblock env = Inr (s', addr) \<and>
           gzfree_gzh s' zn addr =
             fst (snd (gzalloc_layout (gzalloc_uf_mode s) (gzalloc_base s env)
                         (elem_size (zones s zn)) (gz_residue s zn))) \<and>
           gzh_gzsig (mem s') (gzfree_gzh s' zn addr) = GZALLOC_SIGNATURE \<and>
           gzh_gzone (mem s') (gzfree_gzh s' zn addr) =
             (if kmem_ready s \<and> vm_page_zone s \<noteq> ZONE_NULL then zn else GZDEADZONE) \<and>
           gzh_gzsize (mem s') (gzfree_gzh s' zn addr) = ucast (elem_size (zones s zn)) \<and>
           gzfree_saddr s' zn addr = gzalloc_base s env \<and>
           gzalloc_free s' zn addr env' =
             (if MACH_ASSERT s \<and> gzalloc_base s env AND PAGE_MASK \<noteq> 0 then Inl Assert_Failed
              else if \<not> kmem_ready s \<or> vm_page_zone s = ZONE_NULL \<or> zn = GZDEADZONE
              then Inr (s'\<lparr>gzalloc_early_free :=
                             gzalloc_early_free s' + SInt32 (gz_rounded_size s zn)\<rparr>, True)
              else gzfree_quarantine s' zn (gzalloc_base s env) (gz_rounded_size s zn) env') \<and>
           gzalloc_free s' zn addr env' \<noteq> Inl Signature_Mismatch \<and>
           gzalloc_free s' zn addr env' \<noteq> Inl Mismatched_Zone \<and>
           gzalloc_free s' zn addr env' \<noteq> Inl Mismatched_Size \<and>
           (gzalloc_base s env AND PAGE_MASK = 0 \<longrightarrow>
              gzfree_saddr s' zn addr AND PAGE_MASK = 0 \<and> gzfree_assert_ok s' zn addr \<and>
              gzalloc_free s' zn addr env' \<noteq> Inl Assert_Failed)"
proof -
  let ?L = "gzalloc_layout (gzalloc_uf_mode s) (gzalloc_base s env) (elem_size (zones s zn)) (gz_residue s zn)"
  let ?b = "gzalloc_base s env"
  from assms(3) obtain s' addr where r: "gzalloc_alloc s zn canblock env = Inr (s', addr)"
    by (cases "gzalloc_alloc s zn canblock env") auto
  note t = gzalloc_alloc_then_free [OF assms(1,2) r]
  define res where "res = gzalloc_free s' zn addr env'"
  have eq: "res =
             (if MACH_ASSERT s \<and> ?b AND PAGE_MASK \<noteq> 0 then Inl Assert_Failed
              else if \<not> kmem_ready s \<or> vm_page_zone s = ZONE_NULL \<or> zn = GZDEADZONE
              then Inr (s'\<lparr>gzalloc_early_free :=
                             gzalloc_early_free s' + SInt32 (gz_rounded_size s zn)\<rparr>, True)
              else gzfree_quarantine s' zn ?b (gz_rounded_size s zn) env')"
    unfolding res_def by (rule t(10))
  have q: "p = VM_Protect_Failed (protect_result env') \<or> p = VM_Remove_Failed (remove_result env')"
    if "gzfree_quarantine s' zn ?b (gz_rounded_size s zn) env' = Inl p" for p
    using that by (rule gzfree_quarantine_panic)
  have nc: "res \<noteq> Inl Signature_Mismatch" "res \<noteq> Inl Mismatched_Zone" "res \<noteq> Inl Mismatched_Size"
    unfolding eq using q by (auto split: if_splits)
  have na: "res \<noteq> Inl Assert_Failed" if "?b AND PAGE_MASK = 0"
    unfolding eq using q that by (auto split: if_splits)
  have ok: "gzfree_assert_ok s' zn addr" if "?b AND PAGE_MASK = 0"
    using that by (simp add: gzfree_assert_ok_def t(5))
  show ?thesis
    apply (rule exI [of _ s'], rule exI [of _ addr])
    apply (fold res_def)
    apply (simp only: r t(4) t(5) t(6) t(7) t(8) nc simp_thms)
    apply (rule conjI)
     apply (rule eq)
    apply (intro impI conjI; (erule ok | erule na | assumption))
    done
qed

theorem gzalloc_free_recovers_geometry_witness:
  "gz_eligible ex_state 0x4000 \<and>
   \<not> (preemption_level ex_env \<noteq> 0 \<and> \<not> True) \<and>
   \<not> isl (gzalloc_alloc ex_state 0x4000 True ex_env) \<and>
   gzalloc_base ex_state ex_env AND PAGE_MASK = 0 \<and>
   (\<exists>s' addr. gzalloc_alloc ex_state 0x4000 True ex_env = Inr (s', addr) \<and>
      gzh_gzsig (mem s') (gzfree_gzh s' 0x4000 addr) = GZALLOC_SIGNATURE \<and>
      gzfree_saddr s' 0x4000 addr = 0x10000 \<and>
      gzfree_saddr s' 0x4000 addr AND PAGE_MASK = 0 \<and>
      gzalloc_free s' 0x4000 addr ex_env \<noteq> Inl Assert_Failed \<and>
      gzalloc_free s' 0x4000 addr ex_env = gzfree_quarantine s' 0x4000 0x10000 0x1000 ex_env)"
proof -
  have el: "gz_eligible ex_state 0x4000"
    by (simp add: gz_eligible_def ex_state_def ex_zone_def)
  have nf: "\<not> (preemption_level ex_env \<noteq> 0 \<and> \<not> True)" by simp
  have b: "gzalloc_base ex_state ex_env = 0x10000"
    by (simp add: gzalloc_base_def ex_state_def ex_env_def ZONE_NULL_def)
  have al: "(0x10000 :: 64 word) AND PAGE_MASK = 0"
    by (simp add: PAGE_MASK_def PAGE_SIZE_def)
  have rs: "gz_rounded_size ex_state 0x4000 = 0x1000"
    by (rule ex_geometry; simp add: ex_state_def)
  have st: "MACH_ASSERT ex_state" "kmem_ready ex_state" "vm_page_zone ex_state \<noteq> ZONE_NULL"
    "(0x4000 :: 64 word) \<noteq> GZDEADZONE"
    by (simp_all add: ex_state_def ZONE_NULL_def GZDEADZONE_def)
  show ?thesis
    using gzalloc_free_recovers_geometry [OF el nf ex_alloc_no_panic, where env' = ex_env]
      el ex_alloc_no_panic al st
    unfolding b rs
    by auto
qed

text \<open>
  C3. For an eligible free that gets past the page-alignment assertion: with consistency
  checks enabled, the free aborts with the signature panic exactly when the header
  signature differs from the magic constant; with the zone panic exactly when the
  signature is right and the recorded zone differs both from the zone presented and from
  the pre-init sentinel; with the size panic exactly when the first two checks pass and
  the recorded size differs from the zone's element size. With consistency checks
  disabled the free never aborts with any of the three.
\<close>

theorem gzalloc_free_consistency_checks:
  assumes "gz_eligible s zn" and "gzfree_assert_ok s zn addr"
  defines "gzh \<equiv> gzfree_gzh s zn addr"
  defines "bad_sig \<equiv> gzh_gzsig (mem s) gzh \<noteq> GZALLOC_SIGNATURE"
  defines "bad_zone \<equiv> gzh_gzone (mem s) gzh \<noteq> zn \<and> gzh_gzone (mem s) gzh \<noteq> GZDEADZONE"
  defines "bad_size \<equiv> ucast (gzh_gzsize (mem s) gzh) \<noteq> elem_size (zones s zn)"
  shows "(gzalloc_consistency_checks s \<longrightarrow>
            (gzalloc_free s zn addr env = Inl Signature_Mismatch \<longleftrightarrow> bad_sig) \<and>
            (gzalloc_free s zn addr env = Inl Mismatched_Zone \<longleftrightarrow> \<not> bad_sig \<and> bad_zone) \<and>
            (gzalloc_free s zn addr env = Inl Mismatched_Size \<longleftrightarrow> \<not> bad_sig \<and> \<not> bad_zone \<and> bad_size)) \<and>
         (\<not> gzalloc_consistency_checks s \<longrightarrow>
            gzalloc_free s zn addr env \<noteq> Inl Signature_Mismatch \<and>
            gzalloc_free s zn addr env \<noteq> Inl Mismatched_Zone \<and>
            gzalloc_free s zn addr env \<noteq> Inl Mismatched_Size)"
proof -
  have R: "gzalloc_free s zn addr env = Inl P \<longleftrightarrow> gzfree_consistency s zn gzh = Some P"
    if P: "P = Signature_Mismatch \<or> P = Mismatched_Zone \<or> P = Mismatched_Size" for P
  proof (cases "gzfree_consistency s zn gzh")
    case None
    have "gzfree_quarantine s zn a r env \<noteq> Inl P" for a r
      using gzfree_quarantine_panic [of s zn a r env P] P by auto
    then show ?thesis
      using None assms(2) by (simp add: gzalloc_free_eligible [OF assms(1)] gzh_def [symmetric])
  next
    case (Some p)
    then show ?thesis
      using assms(2) by (simp add: gzalloc_free_eligible [OF assms(1)] gzh_def [symmetric])
  qed
  show ?thesis
    unfolding bad_sig_def bad_zone_def bad_size_def
    by (simp only: R gzfree_consistency_cases simp_thms) blast
qed

theorem gzalloc_free_consistency_checks_witness:
  "gz_eligible (ex_state\<lparr>mem := ex_mem 0x5000\<rparr>) 0x4000 \<and>
   gzfree_assert_ok (ex_state\<lparr>mem := ex_mem 0x5000\<rparr>) 0x4000 0x10C00 \<and>
   gzalloc_consistency_checks (ex_state\<lparr>mem := ex_mem 0x5000\<rparr>) \<and>
   gzalloc_free (ex_state\<lparr>mem := ex_mem 0x5000\<rparr>) 0x4000 0x10C00 ex_env = Inl Mismatched_Zone \<and>
   gzalloc_free (ex_state\<lparr>mem := ex_mem 0x5000, gzalloc_consistency_checks := False\<rparr>) 0x4000 0x10C00 ex_env
     \<noteq> Inl Mismatched_Zone"
proof -
  let ?s = "ex_state\<lparr>mem := ex_mem 0x5000\<rparr>"
  let ?t = "ex_state\<lparr>mem := ex_mem 0x5000, gzalloc_consistency_checks := False\<rparr>"
  have z: "zones ?s = (\<lambda>z. ex_zone)" "\<not> gzalloc_uf_mode ?s"
    "zones ?t = (\<lambda>z. ex_zone)" "\<not> gzalloc_uf_mode ?t"
    by (simp_all add: ex_state_def)
  have el: "gz_eligible ?s 0x4000" "gz_eligible ?t 0x4000"
    by (rule ex_eligible; simp add: ex_state_def)+
  note g = ex_geometry [OF z(1,2), where zn = "0x4000"]
  note g' = ex_geometry [OF z(3,4), where zn = "0x4000"]
  have ck: "gzalloc_consistency_checks ?s" "\<not> gzalloc_consistency_checks ?t"
    by (simp_all add: ex_state_def)
  have m: "mem ?s = ex_mem 0x5000" by simp
  show ?thesis
    using gzalloc_free_consistency_checks [OF el(1) g(5), of ex_env]
      gzalloc_free_consistency_checks [OF el(2) g'(5), of ex_env] el g(5) ck
    unfolding g(3) m ex_mem_header
    by (simp add: GZDEADZONE_def)
qed

text \<open>
  C8. An eligible free that passes the assertion and the consistency checks, made while
  the virtual-memory subsystem is not ready or of an element whose header records the
  pre-init sentinel, is reported as handled and changes nothing but the early-free byte
  counter: the cache, the log of virtual-memory calls and the zone's count and byte total
  are those of the state before.
\<close>

theorem gzalloc_free_early_leak:
  assumes "gz_eligible s zn" and "gzfree_assert_ok s zn addr"
    and "gzfree_consistency s zn (gzfree_gzh s zn addr) = None"
    and "\<not> kmem_ready s \<or> gzh_gzone (mem s) (gzfree_gzh s zn addr) = GZDEADZONE"
  shows "gzalloc_free s zn addr env =
           Inr (s\<lparr>gzalloc_early_free := gzalloc_early_free s + SInt32 (gz_rounded_size s zn)\<rparr>, True)"
  using assms(2-4) by (simp add: gzalloc_free_eligible [OF assms(1)])

theorem gzalloc_free_early_leak_witness:
  "gz_eligible (ex_state\<lparr>mem := ex_mem GZDEADZONE\<rparr>) 0x4000 \<and>
   gzfree_assert_ok (ex_state\<lparr>mem := ex_mem GZDEADZONE\<rparr>) 0x4000 0x10C00 \<and>
   gzfree_consistency (ex_state\<lparr>mem := ex_mem GZDEADZONE\<rparr>) 0x4000
     (gzfree_gzh (ex_state\<lparr>mem := ex_mem GZDEADZONE\<rparr>) 0x4000 0x10C00) = None \<and>
   gzh_gzone (mem (ex_state\<lparr>mem := ex_mem GZDEADZONE\<rparr>))
     (gzfree_gzh (ex_state\<lparr>mem := ex_mem GZDEADZONE\<rparr>) 0x4000 0x10C00) = GZDEADZONE \<and>
   gzalloc_free (ex_state\<lparr>mem := ex_mem GZDEADZONE\<rparr>) 0x4000 0x10C00 ex_env =
     Inr (ex_state\<lparr>mem := ex_mem GZDEADZONE, gzalloc_early_free := 4096\<rparr>, True)"
proof -
  let ?s = "ex_state\<lparr>mem := ex_mem GZDEADZONE\<rparr>"
  have z: "zones ?s = (\<lambda>z. ex_zone)" "\<not> gzalloc_uf_mode ?s"
    by (simp_all add: ex_state_def)
  have el: "gz_eligible ?s 0x4000"
    by (rule ex_eligible; simp add: ex_state_def)
  note g = ex_geometry [OF z, where zn = "0x4000"]
  have m: "mem ?s = ex_mem GZDEADZONE" by simp
  have cs: "gzfree_consistency ?s 0x4000 (gzfree_gzh ?s 0x4000 0x10C00) = None"
    unfolding g(3) gzfree_consistency_def m ex_mem_header by (simp add: ex_state_def ex_zone_def)
  have dz: "gzh_gzone (mem ?s) (gzfree_gzh ?s 0x4000 0x10C00) = GZDEADZONE"
    unfolding g(3) m ex_mem_header ..
  then have ea: "\<not> kmem_ready ?s \<or> gzh_gzone (mem ?s) (gzfree_gzh ?s 0x4000 0x10C00) = GZDEADZONE" ..
  have s32: "SInt32 0x1000 = 0x1000" by (rule SInt32_small) simp
  have ef: "gzalloc_early_free ?s = 0" by (simp add: ex_state_def)
  have "gzalloc_free ?s 0x4000 0x10C00 ex_env = Inr (?s\<lparr>gzalloc_early_free := 4096\<rparr>, True)"
    using gzalloc_free_early_leak [OF el g(5) cs ea, of ex_env]
    unfolding g(1) s32 ef by simp
  with el g(5) cs dz show ?thesis by simp
qed

text \<open>
  C6. An eligible free that is not an early one, with the cache capacity zero, of a region
  whose start is not null: no protection change is requested, the only virtual-memory
  call is the removal of the freed region's full extent (rounded size plus the guard
  page), and the zone's count and byte total are decremented in the same call. The cache
  and memory are untouched.
\<close>

theorem gzalloc_free_no_cache:
  assumes "gz_eligible s zn" and "gzfree_assert_ok s zn addr"
    and "gzfree_consistency s zn (gzfree_gzh s zn addr) = None"
    and "kmem_ready s" and "gzh_gzone (mem s) (gzfree_gzh s zn addr) \<noteq> GZDEADZONE"
    and "gzfc_size s = 0"
    and "gzfree_saddr s zn addr \<noteq> 0"
    and "remove_result env = KERN_SUCCESS"
  shows "gzalloc_free s zn addr env =
     Inr (s\<lparr>pdzfree_count := (if preemption_level env \<noteq> 0 then pdzfree_count s + 1 else pdzfree_count s),
            zones := (zones s)(zn := (zones s zn)\<lparr>count := count (zones s zn) - 1,
                                                    cur_size := cur_size (zones s zn) - gz_rounded_size s zn\<rparr>),
            vm_log := vm_log s @ [VM_MAP_REMOVE (gzfree_saddr s zn addr)
                                    (gzfree_saddr s zn addr + gz_rounded_size s zn + PAGE_SIZE)],
            gzalloc_freed := gzalloc_freed s + SInt32 (gz_rounded_size s zn),
            gzalloc_wasted := gzalloc_wasted s - gz_residue s zn\<rparr>, True)"
  using assms by (rule gzalloc_free_nocache_result)

theorem gzalloc_free_no_cache_witness:
  "gz_eligible (ex_state\<lparr>gzfc_size := 0, mem := ex_mem 0x4000\<rparr>) 0x4000 \<and>
   gzfree_assert_ok (ex_state\<lparr>gzfc_size := 0, mem := ex_mem 0x4000\<rparr>) 0x4000 0x10C00 \<and>
   gzfree_consistency (ex_state\<lparr>gzfc_size := 0, mem := ex_mem 0x4000\<rparr>) 0x4000
     (gzfree_gzh (ex_state\<lparr>gzfc_size := 0, mem := ex_mem 0x4000\<rparr>) 0x4000 0x10C00) = None \<and>
   kmem_ready (ex_state\<lparr>gzfc_size := 0, mem := ex_mem 0x4000\<rparr>) \<and>
   gzfree_saddr (ex_state\<lparr>gzfc_size := 0, mem := ex_mem 0x4000\<rparr>) 0x4000 0x10C00 = 0x10000 \<and>
   (\<exists>s'. gzalloc_free (ex_state\<lparr>gzfc_size := 0, mem := ex_mem 0x4000\<rparr>) 0x4000 0x10C00 ex_env = Inr (s', True) \<and>
      vm_log s' = [VM_MAP_REMOVE 0x10000 0x12000] \<and>
      count (zones s' 0x4000) = - 1 \<and> cur_size (zones s' 0x4000) = - 4096)"
proof -
  let ?s = "ex_state\<lparr>gzfc_size := 0, mem := ex_mem 0x4000\<rparr>"
  have z: "zones ?s = (\<lambda>z. ex_zone)" "\<not> gzalloc_uf_mode ?s"
    by (simp_all add: ex_state_def)
  have el: "gz_eligible ?s 0x4000"
    by (rule ex_eligible; simp add: ex_state_def)
  note g = ex_geometry [OF z, where zn = "0x4000"]
  have m: "mem ?s = ex_mem 0x4000" by simp
  have cs: "gzfree_consistency ?s 0x4000 (gzfree_gzh ?s 0x4000 0x10C00) = None"
    unfolding g(3) gzfree_consistency_def m ex_mem_header by (simp add: ex_state_def ex_zone_def)
  have dz: "gzh_gzone (mem ?s) (gzfree_gzh ?s 0x4000 0x10C00) \<noteq> GZDEADZONE"
    unfolding g(3) m ex_mem_header by (simp add: GZDEADZONE_def)
  have kr: "kmem_ready ?s" by (simp add: ex_state_def)
  have fc: "gzfc_size ?s = 0" by simp
  have sa: "gzfree_saddr ?s 0x4000 0x10C00 \<noteq> 0" unfolding g(4) by simp
  have rr: "remove_result ex_env = KERN_SUCCESS" by (simp add: ex_env_def)
  have f: "vm_log ex_state = []" "count (zones ex_state 0x4000) = 0"
    "cur_size (zones ex_state 0x4000) = 0"
    by (simp_all add: ex_state_def ex_zone_def)
  show ?thesis
    using gzalloc_free_no_cache [OF el g(5) cs kr dz fc sa rr] el g(5) cs kr
    unfolding g(1,2,4)
    by (simp add: f PAGE_SIZE_def)
qed

text \<open>
  C7. An eligible allocation of an element of size \<open>S\<close> that is not turned away and does
  not panic increases the wasted-bytes counter by exactly
  \<open>round_page (S + GZHEADER_SIZE) - S\<close>; an eligible free in the zone that returns and has
  removed a region from the guard map decreases the counter by exactly the same amount.
\<close>

theorem gzalloc_wasted_counter:
  assumes "gz_eligible s zn"
  defines "S \<equiv> elem_size (zones s zn)"
  shows "(\<not> (preemption_level env \<noteq> 0 \<and> \<not> canblock) \<and> \<not> isl (gzalloc_alloc s zn canblock env) \<longrightarrow>
            (\<exists>s' a. gzalloc_alloc s zn canblock env = Inr (s', a) \<and>
                     gzalloc_wasted s' = gzalloc_wasted s + (round_page (S + GZHEADER_SIZE) - S))) \<and>
         (\<forall>s' b. gzalloc_free s zn addr env' = Inr (s', b) \<and> released s s' \<longrightarrow>
                     gzalloc_wasted s' = gzalloc_wasted s - (round_page (S + GZHEADER_SIZE) - S))"
proof (intro conjI impI allI)
  assume a: "\<not> (preemption_level env \<noteq> 0 \<and> \<not> canblock) \<and> \<not> isl (gzalloc_alloc s zn canblock env)"
  then have nf: "\<not> (preemption_level env \<noteq> 0 \<and> \<not> canblock)"
    and np: "\<not> isl (gzalloc_alloc s zn canblock env)" by simp_all
  have "SInt32 (gz_residue s zn) = round_page (S + GZHEADER_SIZE) - S"
    unfolding gz_residue_def gz_rounded_size_def S_def by (rule SInt32_residue)
  with gzalloc_alloc_result [OF assms(1) nf np]
  show "\<exists>s' a. gzalloc_alloc s zn canblock env = Inr (s', a) \<and>
                     gzalloc_wasted s' = gzalloc_wasted s + (round_page (S + GZHEADER_SIZE) - S)"
    by auto
next
  fix s' b
  assume "gzalloc_free s zn addr env' = Inr (s', b) \<and> released s s'"
  then show "gzalloc_wasted s' = gzalloc_wasted s - (round_page (S + GZHEADER_SIZE) - S)"
    using gzalloc_free_Inr_wasted [OF assms(1), of addr env' s' b]
    by (simp add: gz_residue_def gz_rounded_size_def S_def)
qed

theorem gzalloc_wasted_counter_witness:
  "gz_eligible ex_state 0x4000 \<and>
   \<not> isl (gzalloc_alloc ex_state 0x4000 True ex_env) \<and>
   (\<exists>s' a. gzalloc_alloc ex_state 0x4000 True ex_env = Inr (s', a) \<and> gzalloc_wasted s' = 0xC00) \<and>
   gz_eligible (ex_state\<lparr>gzfc_size := 0, mem := ex_mem 0x4000\<rparr>) 0x4000 \<and>
   (\<exists>s'. gzalloc_free (ex_state\<lparr>gzfc_size := 0, mem := ex_mem 0x4000\<rparr>) 0x4000 0x10C00 ex_env = Inr (s', True) \<and>
        released (ex_state\<lparr>gzfc_size := 0, mem := ex_mem 0x4000\<rparr>) s' \<and>
        gzalloc_wasted s' = - 0xC00)"
proof -
  let ?t = "ex_state\<lparr>gzfc_size := 0, mem := ex_mem 0x4000\<rparr>"
  have el: "gz_eligible ex_state 0x4000" "gz_eligible ?t 0x4000"
    by (rule ex_eligible; simp add: ex_state_def)+
  have e: "elem_size (zones ex_state 0x4000) = 1024" "elem_size (zones ?t 0x4000) = 1024"
    by (simp_all add: ex_state_def ex_zone_def)
  have rp: "round_page (1024 + GZHEADER_SIZE) - 1024 = 0xC00"
    by (simp add: round_page_def PAGE_MASK_def PAGE_SIZE_def GZHEADER_SIZE_def)
  have w: "gzalloc_wasted ex_state = 0" "gzalloc_wasted ?t = 0" by (simp_all add: ex_state_def)
  have nf: "\<not> (preemption_level ex_env \<noteq> 0 \<and> \<not> True)" by simp
  have "\<exists>s' a. gzalloc_alloc ex_state 0x4000 True ex_env = Inr (s', a) \<and>
     gzalloc_wasted s' = gzalloc_wasted ex_state +
        (round_page (elem_size (zones ex_state 0x4000) + GZHEADER_SIZE) - elem_size (zones ex_state 0x4000))"
    using gzalloc_wasted_counter [OF el(1), where env = ex_env and canblock = True, THEN conjunct1]
      ex_alloc_no_panic nf by blast
  then have A: "\<exists>s' a. gzalloc_alloc ex_state 0x4000 True ex_env = Inr (s', a) \<and> gzalloc_wasted s' = 0xC00"
    unfolding e rp w by simp
  from ex_nocache_free obtain s' where
    f: "gzalloc_free ?t 0x4000 0x10C00 ex_env = Inr (s', True)" and r: "released ?t s'" by blast
  have "gzalloc_wasted s' = gzalloc_wasted ?t -
          (round_page (elem_size (zones ?t 0x4000) + GZHEADER_SIZE) - elem_size (zones ?t 0x4000))"
    using gzalloc_wasted_counter [OF el(2), where addr = "0x10C00" and env' = ex_env, THEN conjunct2] f r
    by blast
  then have "gzalloc_wasted s' = - 0xC00"
    unfolding e rp w by simp
  with f r have B: "\<exists>s'. gzalloc_free ?t 0x4000 0x10C00 ex_env = Inr (s', True) \<and> released ?t s' \<and>
        gzalloc_wasted s' = - 0xC00" by blast
  from el ex_alloc_no_panic A B show ?thesis by blast
qed




text \<open>
  C9, as amended. In underflow-detection mode, an eligible allocation that is not turned
  away and does not panic returns the address one page above the base of its backing
  region, so the element starts at the first byte of its page (the returned address is
  page-aligned when the base is) and occupies the lowest bytes of that page, and the
  header is placed immediately after the element, as a footer: its signature, zone and
  size fields are read back at the returned address plus the element size.
\<close>

theorem gzalloc_alloc_underflow_layout:
  assumes "gz_eligible s zn"
    and "\<not> (preemption_level env \<noteq> 0 \<and> \<not> canblock)"
    and "\<not> isl (gzalloc_alloc s zn canblock env)"
    and "gzalloc_uf_mode s"
  shows "\<exists>s' addr. gzalloc_alloc s zn canblock env = Inr (s', addr) \<and>
           addr = gzalloc_base s env + PAGE_SIZE \<and>
           gzh_gzsig (mem s') (addr + elem_size (zones s zn)) = GZALLOC_SIGNATURE \<and>
           gzh_gzone (mem s') (addr + elem_size (zones s zn)) =
             (if kmem_ready s \<and> vm_page_zone s \<noteq> ZONE_NULL then zn else GZDEADZONE) \<and>
           gzh_gzsize (mem s') (addr + elem_size (zones s zn)) = ucast (elem_size (zones s zn)) \<and>
           (gzalloc_base s env AND PAGE_MASK = 0 \<longrightarrow> addr AND PAGE_MASK = 0)"
proof -
  let ?L = "gzalloc_layout (gzalloc_uf_mode s) (gzalloc_base s env) (elem_size (zones s zn)) (gz_residue s zn)"
  have L: "?L = (gzalloc_base s env + PAGE_SIZE, gzalloc_base s env + PAGE_SIZE + elem_size (zones s zn),
                 gzalloc_base s env + PAGE_SIZE)"
    using assms(4) by (simp add: gzalloc_layout_def Let_def)
  from gzalloc_alloc_result [OF assms(1-3)] obtain s' where
    r: "gzalloc_alloc s zn canblock env = Inr (s', snd (snd ?L))"
    and m: "mem s' = gzalloc_write_header
                      (memset (mem s) (fst ?L) (gzalloc_fill_pattern s) (gz_rounded_size s zn))
                      (fst (snd ?L))
                      (if kmem_ready s \<and> vm_page_zone s \<noteq> ZONE_NULL then zn else GZDEADZONE)
                      (elem_size (zones s zn))"
    by blast
  show ?thesis
    apply (rule exI [of _ s'], rule exI [of _ "gzalloc_base s env + PAGE_SIZE"])
    using r m unfolding L
    apply (simp add: header_gzsig header_gzone header_gzsize aligned_add_page)
    done
qed

theorem gzalloc_alloc_underflow_layout_witness:
  "gzalloc_uf_mode (ex_state\<lparr>gzalloc_uf_mode := True, gzalloc_guard := KMA_GUARD_FIRST\<rparr>) \<and>
   gz_eligible (ex_state\<lparr>gzalloc_uf_mode := True, gzalloc_guard := KMA_GUARD_FIRST\<rparr>) 0x4000 \<and>
   \<not> isl (gzalloc_alloc (ex_state\<lparr>gzalloc_uf_mode := True, gzalloc_guard := KMA_GUARD_FIRST\<rparr>)
            0x4000 True ex_env) \<and>
   gzalloc_base (ex_state\<lparr>gzalloc_uf_mode := True, gzalloc_guard := KMA_GUARD_FIRST\<rparr>) ex_env
     AND PAGE_MASK = 0 \<and>
   (\<exists>s'. gzalloc_alloc (ex_state\<lparr>gzalloc_uf_mode := True, gzalloc_guard := KMA_GUARD_FIRST\<rparr>)
            0x4000 True ex_env = Inr (s', 0x11000) \<and>
         gzh_gzsig (mem s') (0x11000 + 1024) = GZALLOC_SIGNATURE \<and>
         (0x11000 :: 64 word) AND PAGE_MASK = 0)"
proof -
  let ?s = "ex_state\<lparr>gzalloc_uf_mode := True, gzalloc_guard := KMA_GUARD_FIRST\<rparr>"
  have el: "gz_eligible ?s 0x4000"
    by (rule ex_eligible; simp add: ex_state_def)
  have uf: "gzalloc_uf_mode ?s" by simp
  have nf: "\<not> (preemption_level ex_env \<noteq> 0 \<and> \<not> True)" by simp
  have np: "\<not> isl (gzalloc_alloc ?s 0x4000 True ex_env)"
    by (simp add: gzalloc_alloc_def gz_eligible_def ex_state_def ex_zone_def ex_env_def
        gzalloc_backing_def Let_def KERN_SUCCESS_def ZONE_NULL_def log_call_def gzalloc_layout_def
        zone_update_def)
  have b: "gzalloc_base ?s ex_env = 0x10000"
    by (simp add: gzalloc_base_def ex_state_def ex_env_def ZONE_NULL_def)
  have e: "elem_size (zones ?s 0x4000) = 1024" by (simp add: ex_state_def ex_zone_def)
  have al: "(0x10000 :: 64 word) AND PAGE_MASK = 0" "(0x11000 :: 64 word) AND PAGE_MASK = 0"
    by (simp_all add: PAGE_MASK_def PAGE_SIZE_def)
  have ps: "(0x10000 :: 64 word) + PAGE_SIZE = 0x11000" by (simp add: PAGE_SIZE_def)
  show ?thesis
    using gzalloc_alloc_underflow_layout [OF el nf np uf] el uf np al
    unfolding b e ps
    by auto
qed

text \<open>
  C9 as stated fails: in underflow-detection mode a 1024-byte element on the backing
  region at \<open>0x10000\<close> is returned at \<open>0x11000\<close>, the lowest bytes of its page; the
  element ends at \<open>0x11400\<close>, not at the top of the page.
\<close>

theorem gzalloc_alloc_underflow_counterexample:
  "gzalloc_uf_mode (ex_state\<lparr>gzalloc_uf_mode := True, gzalloc_guard := KMA_GUARD_FIRST\<rparr>) \<and>
   gz_eligible (ex_state\<lparr>gzalloc_uf_mode := True, gzalloc_guard := KMA_GUARD_FIRST\<rparr>) 0x4000 \<and>
   elem_size (zones (ex_state\<lparr>gzalloc_uf_mode := True, gzalloc_guard := KMA_GUARD_FIRST\<rparr>) 0x4000) = 1024 \<and>
   map_sum id snd
     (gzalloc_alloc (ex_state\<lparr>gzalloc_uf_mode := True, gzalloc_guard := KMA_GUARD_FIRST\<rparr>)
        0x4000 True ex_env) = Inr 0x11000 \<and>
   (0x11000 :: 64 word) AND PAGE_MASK = 0 \<and>
   (0x11000 + 1024 :: 64 word) AND PAGE_MASK \<noteq> 0"
proof -
  let ?s = "ex_state\<lparr>gzalloc_uf_mode := True, gzalloc_guard := KMA_GUARD_FIRST\<rparr>"
  have el: "gz_eligible ?s 0x4000"
    by (rule ex_eligible; simp add: ex_state_def)
  have a: "map_sum id snd (gzalloc_alloc ?s 0x4000 True ex_env) = Inr 0x11000"
    using el
    by (simp add: gzalloc_alloc_def ex_state_def ex_zone_def ex_env_def
        gzalloc_backing_def Let_def KERN_SUCCESS_def ZONE_NULL_def log_call_def gzalloc_layout_def
        zone_update_def PAGE_SIZE_def)
  show ?thesis
    using el a by (simp add: PAGE_MASK_def PAGE_SIZE_def) (simp add: ex_state_def ex_zone_def)
qed

text \<open>
  C2. For a cache of non-zero capacity, every admission uses a slot below the capacity
  (the cursor, reset to zero when it has reached the capacity): it returns what the slot
  held, writes the freed address there, leaves every other slot alone and advances the
  cursor by one, which stays within the capacity. Admitting capacity + 1 addresses to a
  fresh cache returns no eviction candidate (zero) for the first capacity admissions and
  the first-admitted address for the last one.
\<close>

theorem gzfc_insert_ring:
  assumes "gzfc_size s \<noteq> 0"
  shows "gzfc_cursor s zn < gzfc_size s \<and>
         snd (gzfc_insert s zn a) = gzfc_slot s zn (gzfc_cursor s zn) \<and>
         gzfc_slot (fst (gzfc_insert s zn a)) zn (gzfc_cursor s zn) = a \<and>
         (\<forall>i. i \<noteq> gzfc_cursor s zn \<longrightarrow>
              gzfc_slot (fst (gzfc_insert s zn a)) zn i = gzfc_slot s zn i) \<and>
         gzfc_index (gz (zones (fst (gzfc_insert s zn a)) zn)) = gzfc_cursor s zn + 1 \<and>
         gzfc_index (gz (zones (fst (gzfc_insert s zn a)) zn)) \<le> gzfc_size s \<and>
         (gzfc_fresh s zn \<and> length as = unat (gzfc_size s) + 1 \<longrightarrow>
            snd (gzfc_insert_all s zn as) = replicate (unat (gzfc_size s)) 0 @ [hd as])"
proof -
  have lt: "gzfc_cursor s zn < gzfc_size s" using assms by (rule gzfc_cursor_lt)
  show ?thesis
    using lt gzfc_ring [OF assms] word32_succ(2) [OF lt]
    by (simp add: gzfc_insert_props)
qed

theorem gzfc_insert_ring_witness:
  "gzfc_size ex_state \<noteq> 0 \<and> gzfc_fresh ex_state 0x4000 \<and>
   length [0x10000, 0x20000, 0x30000 :: 64 word] = unat (gzfc_size ex_state) + 1 \<and>
   snd (gzfc_insert_all ex_state 0x4000 [0x10000, 0x20000, 0x30000]) = [0, 0, 0x10000] \<and>
   gzfc_index (gz (zones (fst (gzfc_insert ex_state 0x4000 0x10000)) 0x4000)) = 1"
proof -
  have nz: "gzfc_size ex_state \<noteq> 0" by (simp add: ex_state_def)
  have fr: "gzfc_fresh ex_state 0x4000"
    by (simp add: gzfc_fresh_def gzfc_unused_from_def gzfc_slot_def load64_def ex_state_def ex_zone_def)
  have n: "unat (gzfc_size ex_state) = 2" by (simp add: ex_state_def)
  have c: "gzfc_cursor ex_state 0x4000 = 0" by (simp add: gzfc_cursor_def ex_state_def ex_zone_def)
  show ?thesis
    using gzfc_insert_ring [OF nz, where zn = "0x4000" and a = "0x10000"
        and as = "[0x10000, 0x20000, 0x30000]"] nz fr
    unfolding n c
    by (simp add: numeral_2_eq_2)
qed

text \<open>
  C10. After \<^verbatim>\<open>gzalloc_zone_init\<close> of an eligible zone with a non-zero cache capacity, the
  cache is fresh (cursor zero, every slot zero), and any run of at most capacity-many
  frees on the zone that does not panic returns no eviction candidate: the log grows only
  by protection changes, so no region is removed from the guard map, the zone's element
  count and byte total are not decremented, and the freed and wasted counters keep their
  values. (Early frees in the run leave the cache alone.) A release can therefore occur
  on the (capacity + 1)-th free at the earliest.
\<close>

theorem gzalloc_fresh_cache_no_release:
  assumes "gz_eligible s0 zn" and "gzfc_size s0 \<noteq> 0"
    and "length frees \<le> unat (gzfc_size s0)"
    and "\<not> isl (gzalloc_init_then_free s0 zn env0 frees)"
  shows "\<exists>s s'. gzalloc_init_then_free s0 zn env0 frees = Inr (s, s') \<and>
           gzfc_fresh s zn \<and> only_protects s s' \<and> \<not> released s s' \<and>
           count (zones s' zn) = count (zones s zn) \<and>
           cur_size (zones s' zn) = cur_size (zones s zn) \<and>
           gzalloc_freed s' = gzalloc_freed s \<and> gzalloc_wasted s' = gzalloc_wasted s"
proof -
  from assms(4) obtain s s' where
    i: "gzalloc_zone_init s0 zn env0 = Inr s" and f: "gzalloc_free_all s zn frees = Inr s'"
    and r: "gzalloc_init_then_free s0 zn env0 frees = Inr (s, s')"
    by (auto simp: gzalloc_init_then_free_def split: sum.splits)
  note fr = gzalloc_zone_init_fresh [OF assms(1,2) i]
  have u: "gzfc_unused_from s zn 0" using fr(1) by (simp add: gzfc_fresh_def)
  have b: "unat (0 :: 32 word) + length frees \<le> unat (gzfc_size s)"
    using assms(3) by (simp add: fr(2))
  from gzalloc_free_all_unused [OF u b f] r fr(1) show ?thesis
    by (auto simp: only_protects_not_released)
qed

theorem gzalloc_fresh_cache_no_release_witness:
  "gz_eligible ex_state3 0x4000 \<and> gzfc_size ex_state3 \<noteq> 0 \<and>
   length [(0x10C00 :: vm_offset_t, ex_env), (0x20C00, ex_env)] \<le> unat (gzfc_size ex_state3) \<and>
   \<not> isl (gzalloc_init_then_free ex_state3 0x4000 ex_init_env [(0x10C00, ex_env), (0x20C00, ex_env)]) \<and>
   (\<exists>s s'. gzalloc_init_then_free ex_state3 0x4000 ex_init_env [(0x10C00, ex_env), (0x20C00, ex_env)]
              = Inr (s, s') \<and>
      gzfc_fresh s 0x4000 \<and> only_protects s s' \<and> \<not> released s s' \<and>
      count (zones s' 0x4000) = count (zones s 0x4000) \<and>
      cur_size (zones s' 0x4000) = cur_size (zones s 0x4000) \<and>
      gzalloc_freed s' = gzalloc_freed s \<and> gzalloc_wasted s' = gzalloc_wasted s) \<and>
   (\<exists>s s'. gzalloc_init_then_free ex_state3 0x4000 ex_init_env
               [(0x10C00, ex_env), (0x20C00, ex_env), (0x30C00, ex_env)] = Inr (s, s') \<and>
      released s s' \<and> last (vm_log s') = VM_MAP_REMOVE 0x10000 0x12000 \<and>
      count (zones s' 0x4000) = count (zones s 0x4000) - 1)"
proof -
  have el: "gz_eligible ex_state3 0x4000"
    by (rule ex_eligible; simp add: ex_state3_def ex_state_def)
  have nz: "gzfc_size ex_state3 \<noteq> 0" by (simp add: ex_state3_def ex_state_def)
  have ln: "length [(0x10C00 :: 64 word, ex_env), (0x20C00, ex_env)] \<le> unat (gzfc_size ex_state3)"
    by (simp add: ex_state3_def ex_state_def)
  have np: "\<not> isl (gzalloc_init_then_free ex_state3 0x4000 ex_init_env
                      [(0x10C00, ex_env), (0x20C00, ex_env)])"
    by (simp add: ex_run_two)
  have three: "\<exists>s s'. gzalloc_init_then_free ex_state3 0x4000 ex_init_env
               [(0x10C00, ex_env), (0x20C00, ex_env), (0x30C00, ex_env)] = Inr (s, s') \<and>
      released s s' \<and> last (vm_log s') = VM_MAP_REMOVE 0x10000 0x12000 \<and>
      count (zones s' 0x4000) = count (zones s 0x4000) - 1"
    unfolding ex_run_three
    by (simp add: released_def new_calls_def ex_run_state_def ex_state_def ex_zone_def)
  from gzalloc_fresh_cache_no_release [OF el nz ln np] el nz ln np three
  show ?thesis by blast
qed

text \<open>
  C5 fails on the code. The reserve check of \<^verbatim>\<open>gzalloc_alloc\<close> compares the remaining
  bytes with the rounded size only, while the allocation consumes the rounded size plus
  one page. Early in boot, with the reserve of 2 MiB and a cache of two entries,
  initializing a zone of 1024-byte elements leaves \<open>0x1FF000\<close> bytes; 256 allocations from
  that zone then all return, and the reserve byte counter ends at \<open>2^64 - 4096\<close>. The last
  of them is the single step shown at the end: with 4096 bytes remaining, the allocation
  does not panic, consumes 8192 bytes and wraps the counter.
\<close>

theorem gzalloc_reserve_underflow:
  "\<not> kmem_ready (ex_state\<lparr>kmem_ready := False\<rparr>) \<and>
   gzalloc_reserve_size (ex_state\<lparr>kmem_ready := False\<rparr>) = GZALLOC_RESERVE_SIZE_DEFAULT \<and>
   (\<exists>s1 s'. gzalloc_zone_init (ex_state\<lparr>kmem_ready := False\<rparr>) 0x4000 ex_env = Inr s1 \<and>
             gzalloc_reserve_size s1 = 0x1FF000 \<and>
             gzalloc_alloc_n 256 s1 0x4000 True ex_env = Inr s' \<and>
             gzalloc_reserve_size s' = 0xFFFFFFFFFFFFF000) \<and>
   map_sum id (gzalloc_reserve_size \<circ> fst)
     (gzalloc_alloc (ex_state\<lparr>kmem_ready := False, gzalloc_reserve_size := 0x1000\<rparr>) 0x4000 True ex_env)
     = Inr 0xFFFFFFFFFFFFF000"
proof -
  let ?s0 = "ex_state\<lparr>kmem_ready := False\<rparr>"
  let ?s1 = "ex_state\<lparr>kmem_ready := False,
                zones := (\<lambda>z. ex_zone)(0x4000 := ex_zone\<lparr>gz := \<lparr>gzfc_index = 0, gzfc = 0x100000\<rparr>\<rparr>),
                gzalloc_reserve := 0x101000, gzalloc_reserve_size := 0x1FF000,
                mem := bzero (\<lambda>a. 0) 0x100000 0x1000\<rparr>"
  have i: "gzalloc_zone_init ?s0 0x4000 ex_env = Inr ?s1"
    by (simp add: gzalloc_zone_init_def ex_state_def ex_zone_def ex_env_def
      zone_update_def Let_def round_page_def PAGE_MASK_def PAGE_SIZE_def)
  have el: "gz_eligible ?s1 0x4000"
    by (simp add: gz_eligible_def ex_state_def ex_zone_def)
  have f: "preemption_level ex_env = 0" "\<not> kmem_ready ?s1" "elem_size (zones ?s1 0x4000) = 1024"
    "gzalloc_reserve_size ?s1 = 0x1FF000"
    by (simp_all add: ex_env_def ex_state_def ex_zone_def)
  have b: "256 * 8192 \<le> unat (gzalloc_reserve_size ?s1) + 4096" by (simp add: f)
  from gzalloc_alloc_n_early [OF el f(1-3) b, of True] obtain s' where
    n: "gzalloc_alloc_n 256 ?s1 0x4000 True ex_env = Inr s'"
    and r: "gzalloc_reserve_size s' = gzalloc_reserve_size ?s1 - of_nat 256 * 0x2000"
    by blast
  have r': "gzalloc_reserve_size s' = 0xFFFFFFFFFFFFF000" by (simp add: r f)
  have one: "map_sum id (gzalloc_reserve_size \<circ> fst)
     (gzalloc_alloc (ex_state\<lparr>kmem_ready := False, gzalloc_reserve_size := 0x1000\<rparr>) 0x4000 True ex_env)
     = Inr 0xFFFFFFFFFFFFF000"
    by (simp add: gzalloc_alloc_def gz_eligible_def ex_state_def ex_zone_def ex_env_def
        gzalloc_backing_def Let_def case_prod_beta zone_update_def round_page_def PAGE_MASK_def
        PAGE_SIZE_def GZHEADER_SIZE_def)
  have "\<exists>s1 s'. gzalloc_zone_init ?s0 0x4000 ex_env = Inr s1 \<and>
             gzalloc_reserve_size s1 = 0x1FF000 \<and>
             gzalloc_alloc_n 256 s1 0x4000 True ex_env = Inr s' \<and>
             gzalloc_reserve_size s' = 0xFFFFFFFFFFFFF000"
    using i n r' f(4) by blast
  with one show ?thesis by (simp add: ex_state_def GZALLOC_RESERVE_SIZE_DEFAULT_def)
qed

end
